theory Spec2Isabelle
  imports Complex_Main "HOL-Library.AList"
begin

section \<open>Data model of CVP.py\<close>

text \<open>
  The engine is the function \<open>cvp_analysis_with_full_sliding_fee\<close> of \<^verbatim>\<open>src/CVP.py\<close>
  (lines 12 to 82). Its numbers are Python ints and floats; they are modelled as exact
  rationals, so every arithmetic statement below is a statement about exact arithmetic
  and says nothing about the rounding of binary floating point.

  A Python \<^verbatim>\<open>dict\<close> keeps its keys in insertion order and assigning to a key that is
  already present keeps the key's position. An association list with
  \<^const>\<open>AList.update\<close> behaves the same way, so ordered dictionaries are association
  lists here. The schedule is only ever indexed by service name, so it is a map.
\<close>

datatype error =
    ZeroDivisionError
  | KeyError string
  | UnboundLocalError string
  | ColumnsNotInIndex "string list"

text \<open>
  One element of \<^verbatim>\<open>services\<close>: a dict with the keys \<^verbatim>\<open>service_name\<close>,
  \<^verbatim>\<open>volume\<close> and \<^verbatim>\<open>variable_cost_per_unit\<close>. Every service dict built in the
  repository carries all three keys, so they are fields of a record.
\<close>

record service =
  service_name :: string
  volume :: rat
  variable_cost_per_unit :: rat

text \<open>
  One tier entry, the innermost dict of the schedule. A key may be absent from it, and
  the engine then raises \<^verbatim>\<open>KeyError\<close>, so each field is optional: \<open>None\<close> is the
  absent key.
\<close>

record tier_values =
  price :: "rat option"
  percentage :: "rat option"

type_synonym tier_set = "(string \<times> tier_values) list"

type_synonym schedule = "string \<rightharpoonup> tier_set"

text \<open>
  A cell of the result table: the service name is a string, everything else a number,
  and pandas fills a cell that a row has no value for with NaN.
\<close>

datatype cell = Str string | Num rat | NaN

type_synonym row = "(string \<times> cell) list"

record dataframe =
  columns :: "string list"
  rows :: "row list"

section \<open>The pandas operations the engine uses\<close>

text \<open>
  \<^verbatim>\<open>pd.DataFrame(list_of_dicts)\<close>: the columns are the keys of the dicts in order of
  first appearance and every row gets a cell for every column, NaN where its dict has
  no such key.
\<close>

definition get_cell :: "row \<Rightarrow> string \<Rightarrow> cell" where
  "get_cell r c = (case map_of r c of None \<Rightarrow> NaN | Some v \<Rightarrow> v)"

definition take_columns :: "string list \<Rightarrow> row \<Rightarrow> row" where
  "take_columns cols r = map (\<lambda>c. (c, get_cell r c)) cols"

definition all_keys :: "row list \<Rightarrow> string list" where
  "all_keys data = fold (\<lambda>r cols. cols @ filter (\<lambda>k. k \<notin> set cols) (map fst r)) data []"

definition DataFrame :: "row list \<Rightarrow> dataframe" where
  "DataFrame data =
     (let cols = all_keys data
      in \<lparr>columns = cols, rows = map (take_columns cols) data\<rparr>)"

text \<open>
  \<^verbatim>\<open>df[column_order]\<close> with a list of labels: a label that is no column of the frame
  raises \<^verbatim>\<open>KeyError\<close> (listing the labels not found); otherwise the frame with
  exactly these columns, in this order.
\<close>

definition getitem_columns :: "dataframe \<Rightarrow> string list \<Rightarrow> error + dataframe" where
  "getitem_columns df column_order =
     (let missing = filter (\<lambda>c. c \<notin> set (columns df)) column_order
      in if missing \<noteq> [] then Inl (ColumnsNotInIndex missing)
         else Inr \<lparr>columns = column_order, rows = map (take_columns column_order) (rows df)\<rparr>)"

text \<open>\<^verbatim>\<open>df[c].sum()\<close>, as the dashboard uses it on the profit column: NaN cells are skipped.\<close>

definition column_sum :: "dataframe \<Rightarrow> string \<Rightarrow> rat" where
  "column_sum df c = sum_list (map (\<lambda>r. case get_cell r c of Num x \<Rightarrow> x | _ \<Rightarrow> 0) (rows df))"

section \<open>The engine\<close>

text \<open>
  A dict display \<^verbatim>\<open>{k1: v1, **d, k2: v2}\<close> inserts its items from left to right; a
  key that occurs again keeps its first position and takes the later value.
\<close>

definition dict_display :: "(string \<times> 'v) list \<Rightarrow> (string \<times> 'v) list" where
  "dict_display items = fold (\<lambda>(k, v) d. AList.update k v d) items []"

text \<open>
  The inner loop, lines 43 to 51, over \<^verbatim>\<open>service_sliding_fee.items()\<close>. The loop state
  is \<^verbatim>\<open>total_revenue\<close> and \<^verbatim>\<open>tier_revenues\<close>. Line 44 reads \<^verbatim>\<open>values['percentage']\<close>
  before line 45 reads \<^verbatim>\<open>values['price']\<close>.
\<close>

fun tier_loop ::
  "rat \<Rightarrow> tier_set \<Rightarrow> rat \<times> (string \<times> rat) list \<Rightarrow> error + rat \<times> (string \<times> rat) list"
where
  "tier_loop vol [] (total_revenue, tier_revenues) = Inr (total_revenue, tier_revenues)"
| "tier_loop vol ((tier, vals) # rest) (total_revenue, tier_revenues) =
     (case percentage vals of
        None \<Rightarrow> Inl (KeyError ''percentage'')
      | Some pct \<Rightarrow>
          (let tier_volume = vol * pct
           in case price vals of
                None \<Rightarrow> Inl (KeyError ''price'')
              | Some tier_price \<Rightarrow>
                  (let tier_revenue = tier_volume * tier_price;
                       total_revenue' = total_revenue + tier_revenue
                   in tier_loop vol rest
                        (total_revenue',
                         if tier \<noteq> ''Full Charges''
                         then AList.update tier tier_revenue tier_revenues
                         else tier_revenues))))"

text \<open>
  The body of the outer loop, lines 33 to 72, for one service: the row dict appended to
  \<^verbatim>\<open>service_data\<close> and the \<^verbatim>\<open>tier_revenues\<close> dict of this service.
\<close>

definition service_body ::
  "schedule \<Rightarrow> rat \<Rightarrow> service \<Rightarrow> error + row \<times> (string \<times> rat) list"
where
  "service_body sliding_fee_schedule fixed_cost_per_service s =
     (case sliding_fee_schedule (service_name s) of
        None \<Rightarrow> Inl (KeyError (service_name s))
      | Some service_sliding_fee \<Rightarrow>
          (case tier_loop (volume s) service_sliding_fee (0, []) of
             Inl e \<Rightarrow> Inl e
           | Inr (total_revenue, tier_revenues) \<Rightarrow>
               (let total_variable_costs = variable_cost_per_unit s * volume s;
                    total_costs = total_variable_costs + fixed_cost_per_service;
                    profit = total_revenue - total_costs
                in Inr (dict_display
                          ([(''Service'', Str (service_name s)),
                            (''Volume'', Num (volume s))]
                           @ map (\<lambda>(k, v). (k, Num v)) tier_revenues
                           @ [(''Total Revenue'', Num total_revenue),
                              (''Total Variable Costs'', Num total_variable_costs),
                              (''Fixed Costs'', Num fixed_cost_per_service),
                              (''Total Costs'', Num total_costs),
                              (''Profit'', Num profit)]),
                        tier_revenues))))"

text \<open>
  The outer loop, line 32. Its state is \<^verbatim>\<open>service_data\<close> and the variable
  \<^verbatim>\<open>tier_revenues\<close>, which is unbound (\<open>None\<close>) until the first iteration binds it and
  which line 78 reads after the loop.
\<close>

fun service_loop ::
  "schedule \<Rightarrow> rat \<Rightarrow> service list \<Rightarrow> row list \<times> (string \<times> rat) list option
   \<Rightarrow> error + row list \<times> (string \<times> rat) list option"
where
  "service_loop sliding_fee_schedule fcps [] st = Inr st"
| "service_loop sliding_fee_schedule fcps (s # rest) (service_data, bound) =
     (case service_body sliding_fee_schedule fcps s of
        Inl e \<Rightarrow> Inl e
      | Inr (r, tier_revenues) \<Rightarrow>
          service_loop sliding_fee_schedule fcps rest
            (service_data @ [r], Some tier_revenues))"

definition cvp_analysis_with_full_sliding_fee ::
  "service list \<Rightarrow> schedule \<Rightarrow> rat \<Rightarrow> error + dataframe"
where
  "cvp_analysis_with_full_sliding_fee services sliding_fee_schedule total_fixed_costs =
     (let num_services = length services
      in if num_services = 0 then Inl ZeroDivisionError
         else
           (let fixed_cost_per_service = total_fixed_costs / of_nat num_services
            in case service_loop sliding_fee_schedule fixed_cost_per_service services ([], None) of
                 Inl e \<Rightarrow> Inl e
               | Inr (service_data, bound) \<Rightarrow>
                   (case bound of
                      None \<Rightarrow> Inl (UnboundLocalError ''tier_revenues'')
                    | Some tier_revenues \<Rightarrow>
                        (let results_df = DataFrame service_data;
                             column_order =
                               [''Service'', ''Volume''] @ map fst tier_revenues
                               @ [''Total Revenue'', ''Total Variable Costs'',
                                  ''Fixed Costs'', ''Total Costs'', ''Profit'']
                         in getitem_columns results_df column_order))))"

section \<open>The engine over a store of objects\<close>

text \<open>
  A second reading of the same function, for the question of what a call does to the
  objects it is given. Python passes references: \<^verbatim>\<open>services\<close> is a list object
  holding references to dict objects, \<^verbatim>\<open>sliding_fee_schedule\<close> a dict object whose
  values refer to tier-set dicts, whose values refer to tier-entry dicts. The store
  holds every object at an address; a value is a number, a string or a reference.
  The keys of a dict are strings, as they are in every dict the engine touches.
\<close>

datatype pyval = VNum rat | VStr string | VRef nat

datatype pyobj = ODict "(string \<times> pyval) list" | OList "pyval list" | OFrame dataframe

type_synonym store = "pyobj list"

text \<open>
  An operation on the store fails with one of the engine's errors, or with Python's
  \<^verbatim>\<open>TypeError\<close> when an operand is not of the kind the operation needs (subscripting
  a number, multiplying a dict).
\<close>

datatype fault = Raised error | TypeError

text \<open>Creating an object puts it at the next free address.\<close>

definition alloc :: "pyobj \<Rightarrow> store \<Rightarrow> store \<times> nat" where
  "alloc obj h = (h @ [obj], length h)"

text \<open>
  Reading: \<^verbatim>\<open>d[k]\<close>, \<^verbatim>\<open>d.items()\<close> and iterating over a list. The loops below take
  the items when the loop starts; no statement of a loop body assigns into the
  object the loop runs over.
\<close>

definition deref :: "store \<Rightarrow> pyval \<Rightarrow> fault + pyobj" where
  "deref h v = (case v of VRef a \<Rightarrow> (if a < length h then Inr (h ! a) else Inl TypeError)
                        | _ \<Rightarrow> Inl TypeError)"

definition getitem :: "store \<Rightarrow> pyval \<Rightarrow> string \<Rightarrow> fault + pyval" where
  "getitem h d k =
     (case deref h d of
        Inr (ODict kvs) \<Rightarrow> (case map_of kvs k of None \<Rightarrow> Inl (Raised (KeyError k)) | Some v \<Rightarrow> Inr v)
      | _ \<Rightarrow> Inl TypeError)"

definition dict_items :: "store \<Rightarrow> pyval \<Rightarrow> fault + (string \<times> pyval) list" where
  "dict_items h d = (case deref h d of Inr (ODict kvs) \<Rightarrow> Inr kvs | _ \<Rightarrow> Inl TypeError)"

definition list_elements :: "store \<Rightarrow> pyval \<Rightarrow> fault + pyval list" where
  "list_elements h l = (case deref h l of Inr (OList vs) \<Rightarrow> Inr vs | _ \<Rightarrow> Inl TypeError)"

text \<open>
  Writing: \<^verbatim>\<open>d[k] = v\<close> and \<^verbatim>\<open>l.append(v)\<close> replace the object at the address
  they are given and touch no other address.
\<close>

definition setitem :: "store \<Rightarrow> nat \<Rightarrow> string \<Rightarrow> pyval \<Rightarrow> fault + store" where
  "setitem h a k v =
     (case deref h (VRef a) of
        Inr (ODict kvs) \<Rightarrow> Inr (h[a := ODict (AList.update k v kvs)])
      | _ \<Rightarrow> Inl TypeError)"

definition list_append :: "store \<Rightarrow> nat \<Rightarrow> pyval \<Rightarrow> fault + store" where
  "list_append h a v =
     (case deref h (VRef a) of
        Inr (OList vs) \<Rightarrow> Inr (h[a := OList (vs @ [v])])
      | _ \<Rightarrow> Inl TypeError)"

text \<open>Arithmetic on values; line 30 is a true division.\<close>

definition py_mul :: "pyval \<Rightarrow> pyval \<Rightarrow> fault + pyval" where
  "py_mul a b = (case (a, b) of (VNum x, VNum y) \<Rightarrow> Inr (VNum (x * y)) | _ \<Rightarrow> Inl TypeError)"

definition py_add :: "pyval \<Rightarrow> pyval \<Rightarrow> fault + pyval" where
  "py_add a b = (case (a, b) of (VNum x, VNum y) \<Rightarrow> Inr (VNum (x + y)) | _ \<Rightarrow> Inl TypeError)"

definition py_sub :: "pyval \<Rightarrow> pyval \<Rightarrow> fault + pyval" where
  "py_sub a b = (case (a, b) of (VNum x, VNum y) \<Rightarrow> Inr (VNum (x - y)) | _ \<Rightarrow> Inl TypeError)"

definition py_div :: "pyval \<Rightarrow> pyval \<Rightarrow> fault + pyval" where
  "py_div a b =
     (case (a, b) of
        (VNum x, VNum y) \<Rightarrow> if y = 0 then Inl (Raised ZeroDivisionError) else Inr (VNum (x / y))
      | _ \<Rightarrow> Inl TypeError)"

text \<open>
  Lines 43 to 51. \<^verbatim>\<open>tier_revenues\<close> is the address of the dict created on line 41,
  and line 51 is the only write of the loop.
\<close>

fun tier_loop_store ::
  "pyval \<Rightarrow> (string \<times> pyval) list \<Rightarrow> nat \<Rightarrow> pyval \<Rightarrow> store \<Rightarrow> store \<times> (fault + pyval)"
where
  "tier_loop_store vol [] tier_revenues total_revenue h = (h, Inr total_revenue)"
| "tier_loop_store vol ((tier, vals) # rest) tier_revenues total_revenue h =
     (case getitem h vals ''percentage'' of Inl e \<Rightarrow> (h, Inl e) | Inr pct \<Rightarrow>
     (case py_mul vol pct of Inl e \<Rightarrow> (h, Inl e) | Inr tier_volume \<Rightarrow>
     (case getitem h vals ''price'' of Inl e \<Rightarrow> (h, Inl e) | Inr tier_price \<Rightarrow>
     (case py_mul tier_volume tier_price of Inl e \<Rightarrow> (h, Inl e) | Inr tier_revenue \<Rightarrow>
     (case py_add total_revenue tier_revenue of Inl e \<Rightarrow> (h, Inl e) | Inr total_revenue' \<Rightarrow>
        (if tier \<noteq> ''Full Charges''
         then (case setitem h tier_revenues tier tier_revenue of
                 Inl e \<Rightarrow> (h, Inl e)
               | Inr h' \<Rightarrow> tier_loop_store vol rest tier_revenues total_revenue' h')
         else tier_loop_store vol rest tier_revenues total_revenue' h))))))"

text \<open>
  Lines 33 to 72 for one service: three reads of the service dict, the lookup in the
  schedule, a new \<^verbatim>\<open>tier_revenues\<close> dict, the inner loop, the arithmetic, a new row
  dict, and the \<^verbatim>\<open>append\<close> to \<^verbatim>\<open>service_data\<close>.
\<close>

definition service_body_store ::
  "pyval \<Rightarrow> pyval \<Rightarrow> nat \<Rightarrow> pyval \<Rightarrow> store \<Rightarrow> store \<times> (fault + nat)"
where
  "service_body_store sliding_fee_schedule fixed_cost_per_service service_data service h =
     (case getitem h service ''service_name'' of Inl e \<Rightarrow> (h, Inl e) | Inr name \<Rightarrow>
     (case getitem h service ''volume'' of Inl e \<Rightarrow> (h, Inl e) | Inr vol \<Rightarrow>
     (case getitem h service ''variable_cost_per_unit'' of Inl e \<Rightarrow> (h, Inl e) | Inr cost \<Rightarrow>
     (case (case name of VStr n \<Rightarrow> getitem h sliding_fee_schedule n | _ \<Rightarrow> Inl TypeError) of
        Inl e \<Rightarrow> (h, Inl e) | Inr service_sliding_fee \<Rightarrow>
     (case alloc (ODict []) h of (h1, tier_revenues) \<Rightarrow>
     (case dict_items h1 service_sliding_fee of Inl e \<Rightarrow> (h1, Inl e) | Inr tiers \<Rightarrow>
     (case tier_loop_store vol tiers tier_revenues (VNum 0) h1 of (h2, looped) \<Rightarrow>
     (case looped of Inl e \<Rightarrow> (h2, Inl e) | Inr total_revenue \<Rightarrow>
     (case py_mul cost vol of Inl e \<Rightarrow> (h2, Inl e) | Inr total_variable_costs \<Rightarrow>
     (case py_add total_variable_costs fixed_cost_per_service of
        Inl e \<Rightarrow> (h2, Inl e) | Inr total_costs \<Rightarrow>
     (case py_sub total_revenue total_costs of Inl e \<Rightarrow> (h2, Inl e) | Inr profit \<Rightarrow>
     (case dict_items h2 (VRef tier_revenues) of Inl e \<Rightarrow> (h2, Inl e) | Inr unpacked \<Rightarrow>
     (case alloc (ODict (dict_display
                    ([(''Service'', name), (''Volume'', vol)]
                     @ unpacked
                     @ [(''Total Revenue'', total_revenue),
                        (''Total Variable Costs'', total_variable_costs),
                        (''Fixed Costs'', fixed_cost_per_service),
                        (''Total Costs'', total_costs),
                        (''Profit'', profit)]))) h2 of (h3, r) \<Rightarrow>
     (case list_append h3 service_data (VRef r) of
        Inl e \<Rightarrow> (h3, Inl e)
      | Inr h4 \<Rightarrow> (h4, Inr tier_revenues)))))))))))))))"

text \<open>Line 32, over the elements of \<^verbatim>\<open>services\<close>.\<close>

fun service_loop_store ::
  "pyval \<Rightarrow> pyval \<Rightarrow> nat \<Rightarrow> pyval list \<Rightarrow> nat option \<Rightarrow> store \<Rightarrow> store \<times> (fault + nat option)"
where
  "service_loop_store sliding_fee_schedule fcps service_data [] bound h = (h, Inr bound)"
| "service_loop_store sliding_fee_schedule fcps service_data (service # rest) bound h =
     (case service_body_store sliding_fee_schedule fcps service_data service h of (h', outcome) \<Rightarrow>
     (case outcome of
        Inl e \<Rightarrow> (h', Inl e)
      | Inr tier_revenues \<Rightarrow>
          service_loop_store sliding_fee_schedule fcps service_data rest (Some tier_revenues) h'))"

text \<open>
  \<^verbatim>\<open>pd.DataFrame(service_data)\<close> copies the values of the row dicts into a new
  frame.
\<close>

definition cell_of :: "pyval \<Rightarrow> fault + cell" where
  "cell_of v = (case v of VNum x \<Rightarrow> Inr (Num x) | VStr s \<Rightarrow> Inr (Str s) | VRef a \<Rightarrow> Inl TypeError)"

fun row_of :: "(string \<times> pyval) list \<Rightarrow> fault + row" where
  "row_of [] = Inr []"
| "row_of ((k, v) # kvs) =
     (case cell_of v of Inl e \<Rightarrow> Inl e | Inr c \<Rightarrow>
     (case row_of kvs of Inl e \<Rightarrow> Inl e | Inr r \<Rightarrow> Inr ((k, c) # r)))"

fun rows_of :: "store \<Rightarrow> pyval list \<Rightarrow> fault + row list" where
  "rows_of h [] = Inr []"
| "rows_of h (d # ds) =
     (case dict_items h d of Inl e \<Rightarrow> Inl e | Inr kvs \<Rightarrow>
     (case row_of kvs of Inl e \<Rightarrow> Inl e | Inr r \<Rightarrow>
     (case rows_of h ds of Inl e \<Rightarrow> Inl e | Inr rs \<Rightarrow> Inr (r # rs))))"

text \<open>
  The whole function: \<^verbatim>\<open>service_data\<close> is a new list (line 26), the result of
  line 75 and the result of line 80 are new frames, and the call returns the address
  of the last one. The store is returned also when the call raises.
\<close>

definition cvp_analysis_store ::
  "pyval \<Rightarrow> pyval \<Rightarrow> pyval \<Rightarrow> store \<Rightarrow> store \<times> (fault + nat)"
where
  "cvp_analysis_store services sliding_fee_schedule total_fixed_costs h =
     (case alloc (OList []) h of (h1, service_data) \<Rightarrow>
     (case list_elements h1 services of Inl e \<Rightarrow> (h1, Inl e) | Inr elems \<Rightarrow>
     (case py_div total_fixed_costs (VNum (of_nat (length elems))) of
        Inl e \<Rightarrow> (h1, Inl e) | Inr fixed_cost_per_service \<Rightarrow>
     (case service_loop_store sliding_fee_schedule fixed_cost_per_service service_data elems None h1 of
        (h2, looped) \<Rightarrow>
     (case looped of Inl e \<Rightarrow> (h2, Inl e) | Inr bound \<Rightarrow>
     (case list_elements h2 (VRef service_data) of Inl e \<Rightarrow> (h2, Inl e) | Inr dicts \<Rightarrow>
     (case rows_of h2 dicts of Inl e \<Rightarrow> (h2, Inl e) | Inr data \<Rightarrow>
     (case alloc (OFrame (DataFrame data)) h2 of (h3, results_df) \<Rightarrow>
     (case bound of
        None \<Rightarrow> (h3, Inl (Raised (UnboundLocalError ''tier_revenues'')))
      | Some tier_revenues \<Rightarrow>
     (case dict_items h3 (VRef tier_revenues) of Inl e \<Rightarrow> (h3, Inl e) | Inr trs \<Rightarrow>
     (case getitem_columns (DataFrame data)
             ([''Service'', ''Volume''] @ map fst trs
              @ [''Total Revenue'', ''Total Variable Costs'',
                 ''Fixed Costs'', ''Total Costs'', ''Profit'']) of
        Inl e \<Rightarrow> (h3, Inl (Raised e))
      | Inr df \<Rightarrow> (case alloc (OFrame df) h3 of (h4, result) \<Rightarrow> (h4, Inr result)))))))))))))"

section \<open>Binary floating point\<close>

text \<open>
  A Python \<^verbatim>\<open>float\<close> is an IEEE 754 binary64 number, and every arithmetic operation
  on floats returns the exact result rounded to the nearest such number, ties going to
  the one with an even significand. \<open>double\<close> is that rounding for the numbers whose
  magnitude lies in the normal range; overflow, subnormal numbers, infinities and NaN are
  not modelled. A number written \<^verbatim>\<open>0.1\<close> in a program is \<open>double (1 / 10)\<close>.

  \<open>bitlen n\<close> is the number of binary digits of a positive integer, \<open>binade x\<close> the
  exponent \<open>e\<close> with \<open>2 ^ e \<le> x < 2 ^ (e + 1)\<close> for a positive \<open>x\<close>, and the
  significand has 53 digits, so the numbers of that binade are the multiples of
  \<open>2 ^ (e - 52)\<close>.
\<close>

function bitlen :: "int \<Rightarrow> nat" where
  "bitlen n = (if n \<le> 0 then 0 else Suc (bitlen (n div 2)))"
  by pat_completeness auto
termination
  by (relation "measure nat") auto

declare bitlen.simps [simp del]

definition pow2 :: "int \<Rightarrow> rat" where
  "pow2 k = (if 0 \<le> k then 2 ^ nat k else 1 / 2 ^ nat (- k))"

definition binade :: "rat \<Rightarrow> int" where
  "binade x =
     (let (p, q) = quotient_of x;
          a = int (bitlen p) - int (bitlen q)
      in if pow2 a \<le> x then a else a - 1)"

definition round_half_even :: "rat \<Rightarrow> int" where
  "round_half_even x =
     (let f = \<lfloor>x\<rfloor>; d = x - of_int f
      in if d < 1 / 2 then f
         else if 1 / 2 < d then f + 1
         else if even f then f else f + 1)"

definition double :: "rat \<Rightarrow> rat" where
  "double x =
     (if x = 0 then 0
      else (let ulp = pow2 (binade \<bar>x\<bar> - 52)
            in of_int (round_half_even (x / ulp)) * ulp))"

section \<open>The engine with rounded arithmetic\<close>

text \<open>
  The same function once more, with the result of every arithmetic operation passed
  through a rounding \<open>rnd\<close>: lines 44, 46, 47, 54, 57, 60 and 30. With the identity for
  \<open>rnd\<close> this is the engine above; with \<open>double\<close> it is the engine as Python runs
  it on floats.
\<close>

fun tier_loop_rounded ::
  "(rat \<Rightarrow> rat) \<Rightarrow> rat \<Rightarrow> tier_set \<Rightarrow> rat \<times> (string \<times> rat) list
   \<Rightarrow> error + rat \<times> (string \<times> rat) list"
where
  "tier_loop_rounded rnd vol [] (total_revenue, tier_revenues) = Inr (total_revenue, tier_revenues)"
| "tier_loop_rounded rnd vol ((tier, vals) # rest) (total_revenue, tier_revenues) =
     (case percentage vals of
        None \<Rightarrow> Inl (KeyError ''percentage'')
      | Some pct \<Rightarrow>
          (let tier_volume = rnd (vol * pct)
           in case price vals of
                None \<Rightarrow> Inl (KeyError ''price'')
              | Some tier_price \<Rightarrow>
                  (let tier_revenue = rnd (tier_volume * tier_price);
                       total_revenue' = rnd (total_revenue + tier_revenue)
                   in tier_loop_rounded rnd vol rest
                        (total_revenue',
                         if tier \<noteq> ''Full Charges''
                         then AList.update tier tier_revenue tier_revenues
                         else tier_revenues))))"

definition service_body_rounded ::
  "(rat \<Rightarrow> rat) \<Rightarrow> schedule \<Rightarrow> rat \<Rightarrow> service \<Rightarrow> error + row \<times> (string \<times> rat) list"
where
  "service_body_rounded rnd sliding_fee_schedule fixed_cost_per_service s =
     (case sliding_fee_schedule (service_name s) of
        None \<Rightarrow> Inl (KeyError (service_name s))
      | Some service_sliding_fee \<Rightarrow>
          (case tier_loop_rounded rnd (volume s) service_sliding_fee (0, []) of
             Inl e \<Rightarrow> Inl e
           | Inr (total_revenue, tier_revenues) \<Rightarrow>
               (let total_variable_costs = rnd (variable_cost_per_unit s * volume s);
                    total_costs = rnd (total_variable_costs + fixed_cost_per_service);
                    profit = rnd (total_revenue - total_costs)
                in Inr (dict_display
                          ([(''Service'', Str (service_name s)),
                            (''Volume'', Num (volume s))]
                           @ map (\<lambda>(k, v). (k, Num v)) tier_revenues
                           @ [(''Total Revenue'', Num total_revenue),
                              (''Total Variable Costs'', Num total_variable_costs),
                              (''Fixed Costs'', Num fixed_cost_per_service),
                              (''Total Costs'', Num total_costs),
                              (''Profit'', Num profit)]),
                        tier_revenues))))"

fun service_loop_rounded ::
  "(rat \<Rightarrow> rat) \<Rightarrow> schedule \<Rightarrow> rat \<Rightarrow> service list \<Rightarrow> row list \<times> (string \<times> rat) list option
   \<Rightarrow> error + row list \<times> (string \<times> rat) list option"
where
  "service_loop_rounded rnd sliding_fee_schedule fcps [] st = Inr st"
| "service_loop_rounded rnd sliding_fee_schedule fcps (s # rest) (service_data, bound) =
     (case service_body_rounded rnd sliding_fee_schedule fcps s of
        Inl e \<Rightarrow> Inl e
      | Inr (r, tier_revenues) \<Rightarrow>
          service_loop_rounded rnd sliding_fee_schedule fcps rest
            (service_data @ [r], Some tier_revenues))"

definition cvp_analysis_rounded ::
  "(rat \<Rightarrow> rat) \<Rightarrow> service list \<Rightarrow> schedule \<Rightarrow> rat \<Rightarrow> error + dataframe"
where
  "cvp_analysis_rounded rnd services sliding_fee_schedule total_fixed_costs =
     (let num_services = length services
      in if num_services = 0 then Inl ZeroDivisionError
         else
           (let fixed_cost_per_service = rnd (total_fixed_costs / of_nat num_services)
            in case service_loop_rounded rnd sliding_fee_schedule fixed_cost_per_service services
                      ([], None) of
                 Inl e \<Rightarrow> Inl e
               | Inr (service_data, bound) \<Rightarrow>
                   (case bound of
                      None \<Rightarrow> Inl (UnboundLocalError ''tier_revenues'')
                    | Some tier_revenues \<Rightarrow>
                        (let results_df = DataFrame service_data;
                             column_order =
                               [''Service'', ''Volume''] @ map fst tier_revenues
                               @ [''Total Revenue'', ''Total Variable Costs'',
                                  ''Fixed Costs'', ''Total Costs'', ''Profit'']
                         in getitem_columns results_df column_order))))"

section \<open>Well-formed input\<close>

text \<open>
  The inputs the engine is written for. A tier entry is complete when it carries both
  keys; a service is covered when the schedule has an entry for its name and every tier
  entry of that entry is complete; an input is valid when the list of services is not
  empty and every service in it is covered.
\<close>

definition tier_ok :: "tier_values \<Rightarrow> bool" where
  "tier_ok vals = (percentage vals \<noteq> None \<and> price vals \<noteq> None)"

definition service_ok :: "schedule \<Rightarrow> service \<Rightarrow> bool" where
  "service_ok sliding_fee_schedule s =
     (case sliding_fee_schedule (service_name s) of
        None \<Rightarrow> False
      | Some tiers \<Rightarrow> list_all (\<lambda>(tier, vals). tier_ok vals) tiers)"

definition valid_input :: "service list \<Rightarrow> schedule \<Rightarrow> bool" where
  "valid_input services sliding_fee_schedule =
     (services \<noteq> [] \<and> list_all (service_ok sliding_fee_schedule) services)"

text \<open>
  The value line 46 computes for a complete tier entry:
  \<^verbatim>\<open>(volume * values['percentage']) * values['price']\<close>.
\<close>

definition tier_revenue_of :: "rat \<Rightarrow> tier_values \<Rightarrow> rat" where
  "tier_revenue_of vol vals = (vol * the (percentage vals)) * the (price vals)"

section \<open>Concrete inputs\<close>

text \<open>
  The example of the specification: one service \<open>A\<close> with volume 100 and unit cost 10,
  two tiers of half the volume each, and fixed costs of 1000.
\<close>

definition example_services :: "service list" where
  "example_services = [\<lparr>service_name = ''A'', volume = 100, variable_cost_per_unit = 10\<rparr>]"

definition example_schedule :: schedule where
  "example_schedule = [''A'' \<mapsto> [(''T1'', \<lparr>price = Some 10, percentage = Some (1/2)\<rparr>),
                              (''T2'', \<lparr>price = Some 20, percentage = Some (1/2)\<rparr>)]]"

definition example_table :: dataframe where
  "example_table =
     \<lparr>columns = [''Service'', ''Volume'', ''T1'', ''T2'', ''Total Revenue'',
                 ''Total Variable Costs'', ''Fixed Costs'', ''Total Costs'', ''Profit''],
      rows = [[(''Service'', Str ''A''), (''Volume'', Num 100), (''T1'', Num 500), (''T2'', Num 1000),
               (''Total Revenue'', Num 1500), (''Total Variable Costs'', Num 1000),
               (''Fixed Costs'', Num 1000), (''Total Costs'', Num 2000), (''Profit'', Num (- 500))]]\<rparr>"

text \<open>
  Two services whose tier sets differ. The second one, processed last, has a tier named
  \<open>Full Charges\<close> and no tier \<open>T1\<close>.
\<close>

definition two_services :: "service list" where
  "two_services =
     [\<lparr>service_name = ''A'', volume = 100, variable_cost_per_unit = 10\<rparr>,
      \<lparr>service_name = ''B'', volume = 40, variable_cost_per_unit = 5\<rparr>]"

definition two_schedule :: schedule where
  "two_schedule =
     [''A'' \<mapsto> [(''T1'', \<lparr>price = Some 10, percentage = Some (1/2)\<rparr>),
                 (''T2'', \<lparr>price = Some 20, percentage = Some (1/2)\<rparr>)],
      ''B'' \<mapsto> [(''Full Charges'', \<lparr>price = Some 30, percentage = Some (1/4)\<rparr>),
                 (''T2'', \<lparr>price = Some 20, percentage = Some (1/4)\<rparr>),
                 (''T3'', \<lparr>price = Some 10, percentage = Some (1/2)\<rparr>)]]"

definition two_table :: dataframe where
  "two_table =
     \<lparr>columns = [''Service'', ''Volume'', ''T2'', ''T3'', ''Total Revenue'',
                 ''Total Variable Costs'', ''Fixed Costs'', ''Total Costs'', ''Profit''],
      rows = [[(''Service'', Str ''A''), (''Volume'', Num 100), (''T2'', Num 1000), (''T3'', NaN),
               (''Total Revenue'', Num 1500), (''Total Variable Costs'', Num 1000),
               (''Fixed Costs'', Num 100), (''Total Costs'', Num 1100), (''Profit'', Num 400)],
              [(''Service'', Str ''B''), (''Volume'', Num 40), (''T2'', Num 200), (''T3'', Num 200),
               (''Total Revenue'', Num 700), (''Total Variable Costs'', Num 200),
               (''Fixed Costs'', Num 100), (''Total Costs'', Num 300), (''Profit'', Num 400)]]\<rparr>"





text \<open>
  Inputs with a defect: a first service whose only tier entry has no price, followed by
  a service the schedule has no entry for, and the same two services in the other order;
  a schedule whose incomplete entry belongs to a name that is not among the services; a
  schedule in which the second service's second tier entry has no price.
\<close>

definition defect_services :: "service list" where
  "defect_services =
     [\<lparr>service_name = ''A'', volume = 100, variable_cost_per_unit = 10\<rparr>,
      \<lparr>service_name = ''B'', volume = 40, variable_cost_per_unit = 5\<rparr>]"

definition defect_schedule :: schedule where
  "defect_schedule =
     [''A'' \<mapsto> [(''T1'', \<lparr>price = None, percentage = Some 1\<rparr>)]]"

definition unused_entry_schedule :: schedule where
  "unused_entry_schedule =
     [''A'' \<mapsto> [(''T1'', \<lparr>price = Some 10, percentage = Some (1/2)\<rparr>),
                 (''T2'', \<lparr>price = Some 20, percentage = Some (1/2)\<rparr>)],
      ''B'' \<mapsto> [(''T1'', \<lparr>price = None, percentage = Some 1\<rparr>)]]"

definition late_defect_services :: "service list" where
  "late_defect_services =
     [\<lparr>service_name = ''B'', volume = 40, variable_cost_per_unit = 5\<rparr>,
      \<lparr>service_name = ''A'', volume = 100, variable_cost_per_unit = 10\<rparr>]"

definition malformed_second_schedule :: schedule where
  "malformed_second_schedule =
     [''A'' \<mapsto> [(''T1'', \<lparr>price = Some 10, percentage = Some (1/2)\<rparr>),
                 (''T2'', \<lparr>price = Some 20, percentage = Some (1/2)\<rparr>)],
      ''B'' \<mapsto> [(''T1'', \<lparr>price = Some 10, percentage = Some (1/2)\<rparr>),
                 (''T2'', \<lparr>price = None, percentage = Some (1/2)\<rparr>)]]"

text \<open>
  One service and one tier with the numbers \<^verbatim>\<open>0.1\<close>, \<open>0.3\<close> and \<open>0.2\<close> as Python
  reads them, and the table the engine returns for them in binary floating point.
\<close>

definition float_services :: "service list" where
  "float_services =
     [\<lparr>service_name = ''A'', volume = 1, variable_cost_per_unit = double (1 / 10)\<rparr>]"

definition float_schedule :: schedule where
  "float_schedule = [''A'' \<mapsto> [(''T1'', \<lparr>price = Some (double (3 / 10)), percentage = Some 1\<rparr>)]]"

definition float_table :: dataframe where
  "float_table =
     \<lparr>columns = [''Service'', ''Volume'', ''T1'', ''Total Revenue'',
                 ''Total Variable Costs'', ''Fixed Costs'', ''Total Costs'', ''Profit''],
      rows = [[(''Service'', Str ''A''), (''Volume'', Num 1),
               (''T1'', Num (5404319552844595 / 18014398509481984)),
               (''Total Revenue'', Num (5404319552844595 / 18014398509481984)),
               (''Total Variable Costs'', Num (3602879701896397 / 36028797018963968)),
               (''Fixed Costs'', Num (3602879701896397 / 18014398509481984)),
               (''Total Costs'', Num (1351079888211149 / 4503599627370496)),
               (''Profit'', Num (- (1 / 18014398509481984)))]]\<rparr>"

text \<open>
  The example of the specification as objects in a store: the two tier entries, the
  tier set, the schedule, the service and the list of services, at the addresses 0 to 5;
  and the store after the call, with the five objects the call creates.
\<close>

definition example_store :: store where
  "example_store =
     [ODict [(''price'', VNum 10), (''percentage'', VNum (1/2))],
      ODict [(''price'', VNum 20), (''percentage'', VNum (1/2))],
      ODict [(''T1'', VRef 0), (''T2'', VRef 1)],
      ODict [(''A'', VRef 2)],
      ODict [(''service_name'', VStr ''A''), (''volume'', VNum 100),
             (''variable_cost_per_unit'', VNum 10)],
      OList [VRef 4]]"

definition example_store_after :: store where
  "example_store_after =
     example_store @
     [OList [VRef 8],
      ODict [(''T1'', VNum 500), (''T2'', VNum 1000)],
      ODict [(''Service'', VStr ''A''), (''Volume'', VNum 100), (''T1'', VNum 500),
             (''T2'', VNum 1000), (''Total Revenue'', VNum 1500),
             (''Total Variable Costs'', VNum 1000), (''Fixed Costs'', VNum 1000),
             (''Total Costs'', VNum 2000), (''Profit'', VNum (- 500))],
      OFrame example_table,
      OFrame example_table]"

text \<open>The two services with different tier sets, as objects at the addresses 0 to 10.\<close>

definition two_store :: store where
  "two_store =
     [ODict [(''price'', VNum 10), (''percentage'', VNum (1/2))],
      ODict [(''price'', VNum 20), (''percentage'', VNum (1/2))],
      ODict [(''T1'', VRef 0), (''T2'', VRef 1)],
      ODict [(''price'', VNum 30), (''percentage'', VNum (1/4))],
      ODict [(''price'', VNum 20), (''percentage'', VNum (1/4))],
      ODict [(''price'', VNum 10), (''percentage'', VNum (1/2))],
      ODict [(''Full Charges'', VRef 3), (''T2'', VRef 4), (''T3'', VRef 5)],
      ODict [(''A'', VRef 2), (''B'', VRef 6)],
      ODict [(''service_name'', VStr ''A''), (''volume'', VNum 100),
             (''variable_cost_per_unit'', VNum 10)],
      ODict [(''service_name'', VStr ''B''), (''volume'', VNum 40),
             (''variable_cost_per_unit'', VNum 5)],
      OList [VRef 8, VRef 9]]"

lemmas store_defs =
  cvp_analysis_store_def service_body_store_def alloc_def deref_def getitem_def dict_items_def
  list_elements_def setitem_def list_append_def py_mul_def py_add_def py_sub_def py_div_def
  cell_of_def dict_display_def DataFrame_def all_keys_def getitem_columns_def take_columns_def
  get_cell_def

lemmas eval_defs =
  cvp_analysis_with_full_sliding_fee_def service_body_def dict_display_def DataFrame_def
  all_keys_def getitem_columns_def take_columns_def get_cell_def

section \<open>Dictionaries and frames\<close>

text \<open>Looking a key up in a dict display finds the last item with that key.\<close>

lemma map_of_fold_update:
  "map_of (fold (\<lambda>(k, v) d. AList.update k v d) items d) k =
     (case map_of (rev items) k of None \<Rightarrow> map_of d k | Some v \<Rightarrow> Some v)"
  by (induction items arbitrary: d) (auto simp: update_conv' split: option.splits)

lemma map_of_dict_display: "map_of (dict_display items) k = map_of (rev items) k"
  by (simp add: dict_display_def map_of_fold_update split: option.splits)

lemma keys_fold_update:
  "fst ` set (fold (\<lambda>(k, v) d. AList.update k v d) items d) = fst ` set items \<union> fst ` set d"
proof (induction items arbitrary: d)
  case Nil
  show ?case by simp
next
  case (Cons a items)
  obtain k v where a: "a = (k, v)" by (cases a)
  show ?case using Cons.IH [of "AList.update k v d"] by (simp add: a dom_update)
qed

lemma keys_dict_display: "fst ` set (dict_display items) = fst ` set items"
  by (simp add: dict_display_def keys_fold_update)

lemma update_fresh: "k \<notin> fst ` set al \<Longrightarrow> AList.update k v al = al @ [(k, v)]"
  by (induction al) auto


text \<open>Selecting columns from the frame built from a list of dicts.\<close>

lemma map_of_take_columns:
  "map_of (take_columns cols r) c = (if c \<in> set cols then Some (get_cell r c) else None)"
  by (induction cols) (auto simp: take_columns_def)

lemma get_cell_take_columns:
  "c \<in> set cols \<Longrightarrow> get_cell (take_columns cols r) c = get_cell r c"
  by (simp add: get_cell_def [of "take_columns cols r"] map_of_take_columns)

lemma take_columns_twice:
  "set cols \<subseteq> set ks \<Longrightarrow> take_columns cols (take_columns ks r) = take_columns cols r"
  by (auto simp: take_columns_def [of cols] get_cell_take_columns)

lemma set_fold_keys:
  "set (fold (\<lambda>r cols. cols @ filter (\<lambda>k. k \<notin> set cols) (map fst r)) data acc)
     = set acc \<union> (\<Union>r \<in> set data. fst ` set r)"
  by (induction data arbitrary: acc) auto

lemma set_all_keys: "set (all_keys data) = (\<Union>r \<in> set data. fst ` set r)"
  by (simp add: all_keys_def set_fold_keys)

lemma getitem_DataFrame:
  assumes "set cols \<subseteq> (\<Union>r \<in> set data. fst ` set r)"
  shows "getitem_columns (DataFrame data) cols
           = Inr \<lparr>columns = cols, rows = map (take_columns cols) data\<rparr>"
proof -
  have sub: "set cols \<subseteq> set (all_keys data)" using assms by (simp add: set_all_keys)
  then have "filter (\<lambda>c. c \<notin> set (all_keys data)) cols = []"
    by (auto simp: filter_empty_conv)
  then show ?thesis
    by (simp add: getitem_columns_def DataFrame_def Let_def take_columns_twice [OF sub])
qed

section \<open>The inner loop\<close>

text \<open>
  The loop over the tiers succeeds exactly when every tier entry is complete, and then
  adds every tier's revenue to the total and stores the revenue of every tier except
  \<open>Full Charges\<close>. On the first incomplete entry it stops with the missing key.
\<close>

lemma tier_loop_ok:
  "list_all (\<lambda>(tier, vals). tier_ok vals) tiers \<Longrightarrow>
   tier_loop vol tiers (tr, trs) =
     Inr (tr + sum_list (map (\<lambda>(tier, vals). tier_revenue_of vol vals) tiers),
          fold (\<lambda>(tier, vals) d. if tier \<noteq> ''Full Charges''
                                   then AList.update tier (tier_revenue_of vol vals) d else d) tiers trs)"
proof (induction tiers arbitrary: tr trs)
  case Nil
  show ?case by simp
next
  case (Cons a tiers)
  obtain tier vals where a: "a = (tier, vals)" by (cases a)
  from Cons.prems obtain pct pr where v: "percentage vals = Some pct" "price vals = Some pr"
    and rest: "list_all (\<lambda>(tier, vals). tier_ok vals) tiers"
    by (auto simp: a tier_ok_def)
  show ?case
    by (simp add: a v Cons.IH [OF rest] tier_revenue_of_def Let_def add.assoc)
qed

lemma tier_loop_Inr_ok:
  "tier_loop vol tiers (tr, trs) = Inr x \<Longrightarrow> list_all (\<lambda>(tier, vals). tier_ok vals) tiers"
proof (induction tiers arbitrary: tr trs)
  case Nil
  show ?case by simp
next
  case (Cons a tiers)
  obtain tier vals where a: "a = (tier, vals)" by (cases a)
  from Cons.prems obtain pct pr where v: "percentage vals = Some pct" "price vals = Some pr"
    by (auto simp: a split: option.splits)
  from Cons.prems obtain tr2 trs2 where "tier_loop vol tiers (tr2, trs2) = Inr x"
    by (simp add: a v Let_def split: if_splits)
  from Cons.IH [OF this] show ?case by (simp add: a v tier_ok_def)
qed

lemma tier_loop_items:
  "tier_loop vol tiers (tr, trs) = Inr (tr', trs') \<Longrightarrow>
   distinct (map fst tiers) \<Longrightarrow> fst ` set trs \<inter> fst ` set tiers = {} \<Longrightarrow>
   trs' = trs @ map (\<lambda>(tier, vals). (tier, tier_revenue_of vol vals))
                  (filter (\<lambda>(tier, vals). tier \<noteq> ''Full Charges'') tiers)"
proof (induction tiers arbitrary: tr trs)
  case Nil
  then show ?case by simp
next
  case (Cons a tiers)
  obtain tier vals where a: "a = (tier, vals)" by (cases a)
  from Cons.prems(1) obtain pct pr where v: "percentage vals = Some pct" "price vals = Some pr"
    by (auto simp: a split: option.splits)
  from Cons.prems have notin: "tier \<notin> fst ` set trs" and d: "distinct (map fst tiers)"
    and tn: "tier \<notin> fst ` set tiers" and disj: "fst ` set trs \<inter> fst ` set tiers = {}"
    by (auto simp: a)
  show ?case
  proof (cases "tier = ''Full Charges''")
    case True
    with Cons.prems(1) have "tier_loop vol tiers (tr + vol * pct * pr, trs) = Inr (tr', trs')"
      by (simp add: a v)
    from Cons.IH [OF this d disj] True show ?thesis by (simp add: a)
  next
    case False
    with Cons.prems(1) have
      "tier_loop vol tiers (tr + vol * pct * pr, trs @ [(tier, vol * pct * pr)]) = Inr (tr', trs')"
      by (simp add: a v Let_def update_fresh [OF notin])
    moreover have "fst ` set (trs @ [(tier, vol * pct * pr)]) \<inter> fst ` set tiers = {}"
      using disj tn by auto
    ultimately have "trs' = (trs @ [(tier, vol * pct * pr)])
        @ map (\<lambda>(tier, vals). (tier, tier_revenue_of vol vals))
                  (filter (\<lambda>(tier, vals). tier \<noteq> ''Full Charges'') tiers)"
      using Cons.IH d by blast
    with False show ?thesis by (simp add: a tier_revenue_of_def v)
  qed
qed



lemma tier_loop_first_defect:
  "list_all (\<lambda>(tier, vals). tier_ok vals) tpre \<Longrightarrow> \<not> tier_ok vals \<Longrightarrow>
   tier_loop vol (tpre @ (tier, vals) # tpost) (tr, trs)
     = Inl (KeyError (if percentage vals = None then ''percentage'' else ''price''))"
proof (induction tpre arbitrary: tr trs)
  case Nil
  then show ?case by (auto simp: tier_ok_def split: option.splits)
next
  case (Cons a tpre)
  obtain t v where a: "a = (t, v)" by (cases a)
  from Cons.prems obtain pct pr where v: "percentage v = Some pct" "price v = Some pr"
    and rest: "list_all (\<lambda>(tier, vals). tier_ok vals) tpre"
    by (auto simp: a tier_ok_def)
  show ?case by (simp add: a v Let_def Cons.IH [OF rest Cons.prems(2)])
qed

section \<open>One service\<close>

lemma service_body_ok:
  assumes "sliding_fee_schedule (service_name s) = Some tiers"
    and "list_all (\<lambda>(tier, vals). tier_ok vals) tiers"
  shows "\<exists>total_revenue tier_revenues.
           tier_loop (volume s) tiers (0, []) = Inr (total_revenue, tier_revenues) \<and>
           total_revenue = sum_list (map (\<lambda>(tier, vals). tier_revenue_of (volume s) vals) tiers) \<and>
           service_body sliding_fee_schedule fcps s =
             Inr (dict_display
                    ([(''Service'', Str (service_name s)), (''Volume'', Num (volume s))]
                     @ map (\<lambda>(k, v). (k, Num v)) tier_revenues
                     @ [(''Total Revenue'', Num total_revenue),
                        (''Total Variable Costs'', Num (variable_cost_per_unit s * volume s)),
                        (''Fixed Costs'', Num fcps),
                        (''Total Costs'', Num (variable_cost_per_unit s * volume s + fcps)),
                        (''Profit'', Num (total_revenue - (variable_cost_per_unit s * volume s + fcps)))]),
                  tier_revenues)"
  using tier_loop_ok [OF assms(2), of "volume s" 0 "[]"]
  by (simp add: service_body_def assms(1) Let_def)

lemma service_ok_Inr:
  "service_ok sliding_fee_schedule s \<Longrightarrow> \<exists>r trs. service_body sliding_fee_schedule fcps s = Inr (r, trs)"
proof -
  assume ok: "service_ok sliding_fee_schedule s"
  then obtain tiers where t: "sliding_fee_schedule (service_name s) = Some tiers"
    and a: "list_all (\<lambda>(tier, vals). tier_ok vals) tiers"
    by (auto simp: service_ok_def split: option.splits)
  from service_body_ok [where sliding_fee_schedule = sliding_fee_schedule and s = s and fcps = fcps, OF t a]
  show ?thesis by blast
qed

lemma service_body_Inr_ok:
  assumes "service_body sliding_fee_schedule fcps s = Inr x"
  shows "service_ok sliding_fee_schedule s"
proof -
  from assms obtain tiers where t: "sliding_fee_schedule (service_name s) = Some tiers"
    by (auto simp: service_body_def split: option.splits)
  with assms obtain y where "tier_loop (volume s) tiers (0, []) = Inr y"
    by (auto simp: service_body_def Let_def split: sum.splits)
  from tier_loop_Inr_ok [OF this] t show ?thesis by (simp add: service_ok_def)
qed

lemma service_body_row:
  assumes "service_body sliding_fee_schedule fcps s = Inr (r, trs)"
  shows "\<exists>total_revenue.
           r = dict_display
                 ([(''Service'', Str (service_name s)), (''Volume'', Num (volume s))]
                  @ map (\<lambda>(k, v). (k, Num v)) trs
                  @ [(''Total Revenue'', Num total_revenue),
                     (''Total Variable Costs'', Num (variable_cost_per_unit s * volume s)),
                     (''Fixed Costs'', Num fcps),
                     (''Total Costs'', Num (variable_cost_per_unit s * volume s + fcps)),
                     (''Profit'', Num (total_revenue - (variable_cost_per_unit s * volume s + fcps)))])"
  using assms
  by (auto simp: service_body_def Let_def split: option.splits sum.splits prod.splits)

lemma service_body_keys:
  assumes "service_body sliding_fee_schedule fcps s = Inr (r, trs)"
  shows "fst ` set r = {''Service'', ''Volume'', ''Total Revenue'', ''Total Variable Costs'',
                        ''Fixed Costs'', ''Total Costs'', ''Profit''} \<union> fst ` set trs"
proof -
  have k: "fst ` set (map (\<lambda>(k, v). (k, Num v)) trs) = fst ` set trs"
    by (force simp: image_iff)
  from service_body_row [OF assms] obtain tr where r: "r = dict_display
                 ([(''Service'', Str (service_name s)), (''Volume'', Num (volume s))]
                  @ map (\<lambda>(k, v). (k, Num v)) trs
                  @ [(''Total Revenue'', Num tr),
                     (''Total Variable Costs'', Num (variable_cost_per_unit s * volume s)),
                     (''Fixed Costs'', Num fcps),
                     (''Total Costs'', Num (variable_cost_per_unit s * volume s + fcps)),
                     (''Profit'', Num (tr - (variable_cost_per_unit s * volume s + fcps)))])"
    by blast
  show ?thesis
    unfolding r keys_dict_display set_append image_Un k by auto
qed

lemma service_body_cells:
  assumes "service_body sliding_fee_schedule fcps s = Inr (r, trs)"
    and "sliding_fee_schedule (service_name s) = Some tiers"
  shows "get_cell r ''Total Revenue''
           = Num (sum_list (map (\<lambda>(tier, vals). tier_revenue_of (volume s) vals) tiers))"
    and "get_cell r ''Total Variable Costs'' = Num (variable_cost_per_unit s * volume s)"
    and "get_cell r ''Fixed Costs'' = Num fcps"
    and "get_cell r ''Total Costs'' = Num (variable_cost_per_unit s * volume s + fcps)"
    and "get_cell r ''Profit''
           = Num (sum_list (map (\<lambda>(tier, vals). tier_revenue_of (volume s) vals) tiers)
                  - (variable_cost_per_unit s * volume s + fcps))"
proof -
  from assms obtain tr where tl: "tier_loop (volume s) tiers (0, []) = Inr (tr, trs)"
    by (auto simp: service_body_def Let_def split: sum.splits prod.splits)
  from tier_loop_Inr_ok [OF tl] have ok: "list_all (\<lambda>(tier, vals). tier_ok vals) tiers" .
  from service_body_ok [where sliding_fee_schedule = sliding_fee_schedule and s = s and fcps = fcps,
      OF assms(2) ok] assms(1)
  have r: "r = dict_display
                 ([(''Service'', Str (service_name s)), (''Volume'', Num (volume s))]
                  @ map (\<lambda>(k, v). (k, Num v)) trs
                  @ [(''Total Revenue'', Num (sum_list (map (\<lambda>(tier, vals). tier_revenue_of (volume s) vals) tiers))),
                     (''Total Variable Costs'', Num (variable_cost_per_unit s * volume s)),
                     (''Fixed Costs'', Num fcps),
                     (''Total Costs'', Num (variable_cost_per_unit s * volume s + fcps)),
                     (''Profit'', Num (sum_list (map (\<lambda>(tier, vals). tier_revenue_of (volume s) vals) tiers)
                         - (variable_cost_per_unit s * volume s + fcps)))])"
    by auto
  show "get_cell r ''Total Revenue''
           = Num (sum_list (map (\<lambda>(tier, vals). tier_revenue_of (volume s) vals) tiers))"
    by (simp add: r get_cell_def map_of_dict_display)
  show "get_cell r ''Total Variable Costs'' = Num (variable_cost_per_unit s * volume s)"
    by (simp add: r get_cell_def map_of_dict_display)
  show "get_cell r ''Fixed Costs'' = Num fcps"
    by (simp add: r get_cell_def map_of_dict_display)
  show "get_cell r ''Total Costs'' = Num (variable_cost_per_unit s * volume s + fcps)"
    by (simp add: r get_cell_def map_of_dict_display)
  show "get_cell r ''Profit''
           = Num (sum_list (map (\<lambda>(tier, vals). tier_revenue_of (volume s) vals) tiers)
                  - (variable_cost_per_unit s * volume s + fcps))"
    by (simp add: r get_cell_def map_of_dict_display)
qed

lemma service_body_tier_revenues:
  assumes "service_body sliding_fee_schedule fcps s = Inr (r, trs)"
    and "sliding_fee_schedule (service_name s) = Some tiers"
    and "distinct (map fst tiers)"
  shows "trs = map (\<lambda>(tier, vals). (tier, tier_revenue_of (volume s) vals))
                  (filter (\<lambda>(tier, vals). tier \<noteq> ''Full Charges'') tiers)"
proof -
  from assms(1,2) obtain tr where tl: "tier_loop (volume s) tiers (0, []) = Inr (tr, trs)"
    by (auto simp: service_body_def Let_def split: sum.splits prod.splits)
  from tier_loop_items [OF tl assms(3)] show ?thesis by simp
qed




section \<open>The outer loop and the table\<close>

lemma service_loop_ok:
  "list_all (service_ok sliding_fee_schedule) ss \<Longrightarrow>
   service_loop sliding_fee_schedule fcps ss (service_data, bound) =
     Inr (service_data @ map (\<lambda>s. fst (projr (service_body sliding_fee_schedule fcps s))) ss,
          if ss = [] then bound
          else Some (snd (projr (service_body sliding_fee_schedule fcps (last ss)))))"
proof (induction ss arbitrary: service_data bound)
  case Nil
  show ?case by simp
next
  case (Cons s ss)
  from Cons.prems have ok: "service_ok sliding_fee_schedule s"
    and rest: "list_all (service_ok sliding_fee_schedule) ss" by simp_all
  from service_ok_Inr [OF ok] obtain r trs where
    b: "service_body sliding_fee_schedule fcps s = Inr (r, trs)" by blast
  show ?case by (simp add: b Cons.IH [OF rest])
qed

lemma service_loop_Inr_ok:
  "service_loop sliding_fee_schedule fcps ss st = Inr x \<Longrightarrow>
   list_all (service_ok sliding_fee_schedule) ss"
proof (induction ss arbitrary: st)
  case Nil
  show ?case by simp
next
  case (Cons s ss)
  obtain service_data bound where st: "st = (service_data, bound)" by (cases st)
  from Cons.prems obtain r trs where b: "service_body sliding_fee_schedule fcps s = Inr (r, trs)"
    by (auto simp: st split: sum.splits)
  with Cons.prems have "service_loop sliding_fee_schedule fcps ss (service_data @ [r], Some trs) = Inr x"
    by (simp add: st)
  from Cons.IH [OF this] service_body_Inr_ok [OF b] show ?case by simp
qed

lemma service_loop_first_defect:
  "list_all (service_ok sliding_fee_schedule) pre \<Longrightarrow>
   service_body sliding_fee_schedule fcps s = Inl e \<Longrightarrow>
   service_loop sliding_fee_schedule fcps (pre @ s # post) (service_data, bound) = Inl e"
proof (induction pre arbitrary: service_data bound)
  case Nil
  then show ?case by simp
next
  case (Cons a pre)
  from Cons.prems have ok: "service_ok sliding_fee_schedule a"
    and rest: "list_all (service_ok sliding_fee_schedule) pre" by simp_all
  from service_ok_Inr [OF ok] obtain r trs where
    b: "service_body sliding_fee_schedule fcps a = Inr (r, trs)" by blast
  show ?case by (simp add: b Cons.IH [OF rest Cons.prems(2)])
qed

lemma cvp_valid:
  assumes "valid_input services sliding_fee_schedule"
    and fcps_def: "fcps = total_fixed_costs / of_nat (length services)"
    and results_def: "results = map (\<lambda>s. projr (service_body sliding_fee_schedule fcps s)) services"
    and cols_def: "cols = [''Service'', ''Volume''] @ map fst (snd (last results))
                            @ [''Total Revenue'', ''Total Variable Costs'',
                               ''Fixed Costs'', ''Total Costs'', ''Profit'']"
  shows "cvp_analysis_with_full_sliding_fee services sliding_fee_schedule total_fixed_costs =
             Inr \<lparr>columns = cols, rows = map (\<lambda>(r, trs). take_columns cols r) results\<rparr>"
    and "\<forall>s \<in> set services. \<exists>r trs. service_body sliding_fee_schedule fcps s = Inr (r, trs)"
proof -
  from assms have ne: "services \<noteq> []" and ok: "list_all (service_ok sliding_fee_schedule) services"
    by (simp_all add: valid_input_def)
  show each: "\<forall>s \<in> set services. \<exists>r trs. service_body sliding_fee_schedule fcps s = Inr (r, trs)"
    using ok service_ok_Inr by (auto simp: list_all_iff)
  have loop: "service_loop sliding_fee_schedule fcps services ([], None)
                = Inr (map fst results, Some (snd (last results)))"
    using service_loop_ok [OF ok, of fcps "[]" None] ne
    by (simp add: results_def last_map comp_def)
  have lastin: "last services \<in> set services" using ne by simp
  with each obtain r trs where
    b: "service_body sliding_fee_schedule fcps (last services) = Inr (r, trs)" by blast
  have lr: "last results = (r, trs)" using ne b by (simp add: results_def last_map)
  have rin: "r \<in> set (map fst results)"
    using lastin b by (force simp: results_def image_iff)
  have "set cols \<subseteq> fst ` set r"
    unfolding cols_def lr service_body_keys [OF b] by auto
  with rin have sub: "set cols \<subseteq> (\<Union>r \<in> set (map fst results). fst ` set r)" by blast
  have "cvp_analysis_with_full_sliding_fee services sliding_fee_schedule total_fixed_costs
          = getitem_columns (DataFrame (map fst results)) cols"
    using ne loop
    by (simp add: cvp_analysis_with_full_sliding_fee_def Let_def fcps_def [symmetric] cols_def)
  also have "\<dots> = Inr \<lparr>columns = cols, rows = map (take_columns cols) (map fst results)\<rparr>"
    by (rule getitem_DataFrame [OF sub])
  finally show "cvp_analysis_with_full_sliding_fee services sliding_fee_schedule total_fixed_costs =
             Inr \<lparr>columns = cols, rows = map (\<lambda>(r, trs). take_columns cols r) results\<rparr>"
    by (simp add: comp_def case_prod_unfold)
qed

lemma cvp_Inr_valid:
  assumes "cvp_analysis_with_full_sliding_fee services sliding_fee_schedule total_fixed_costs = Inr df"
  shows "valid_input services sliding_fee_schedule"
proof -
  from assms have ne: "services \<noteq> []"
    by (auto simp: cvp_analysis_with_full_sliding_fee_def)
  with assms obtain x where
    "service_loop sliding_fee_schedule (total_fixed_costs / of_nat (length services)) services ([], None) = Inr x"
    by (auto simp: cvp_analysis_with_full_sliding_fee_def Let_def split: sum.splits)
  from service_loop_Inr_ok [OF this] ne show ?thesis by (simp add: valid_input_def)
qed

lemma cvp_rows:
  assumes "valid_input services sliding_fee_schedule"
  shows "\<exists>df. cvp_analysis_with_full_sliding_fee services sliding_fee_schedule total_fixed_costs = Inr df \<and>
           length (rows df) = length services \<and>
           (\<exists>r trs. service_body sliding_fee_schedule (total_fixed_costs / of_nat (length services))
                       (last services) = Inr (r, trs) \<and>
                    columns df = [''Service'', ''Volume''] @ map fst trs
                            @ [''Total Revenue'', ''Total Variable Costs'',
                               ''Fixed Costs'', ''Total Costs'', ''Profit'']) \<and>
           (\<forall>i < length services.
              \<exists>r trs. service_body sliding_fee_schedule (total_fixed_costs / of_nat (length services))
                       (services ! i) = Inr (r, trs) \<and>
                      rows df ! i = take_columns (columns df) r)"
proof -
  define fcps where "fcps = total_fixed_costs / of_nat (length services)"
  from assms have ne: "services \<noteq> []" by (simp add: valid_input_def)
  define results where "results = map (\<lambda>s. projr (service_body sliding_fee_schedule fcps s)) services"
  define cols where "cols = [''Service'', ''Volume''] @ map fst (snd (last results))
                            @ [''Total Revenue'', ''Total Variable Costs'',
                               ''Fixed Costs'', ''Total Costs'', ''Profit'']"
  define df where "df = \<lparr>columns = cols, rows = map (\<lambda>(r, trs). take_columns cols r) results\<rparr>"
  note res = results_def
  from cvp_valid [OF assms fcps_def results_def cols_def]
  have df: "cvp_analysis_with_full_sliding_fee services sliding_fee_schedule total_fixed_costs = Inr df"
    and each: "\<forall>s \<in> set services. \<exists>r trs. service_body sliding_fee_schedule fcps s = Inr (r, trs)"
    by (simp_all add: df_def)
  have cols: "columns df = [''Service'', ''Volume''] @ map fst (snd (last results))
                            @ [''Total Revenue'', ''Total Variable Costs'',
                               ''Fixed Costs'', ''Total Costs'', ''Profit'']"
    by (simp add: df_def cols_def)
  have rws: "rows df = map (\<lambda>(r, trs). take_columns (columns df) r) results"
    by (simp add: df_def)
  have len: "length (rows df) = length services" by (simp add: rws res)
  have "last services \<in> set services" using ne by simp
  with each obtain r trs where
    b: "service_body sliding_fee_schedule fcps (last services) = Inr (r, trs)" by blast
  then have "last results = (r, trs)" using ne by (simp add: res last_map)
  with cols have c: "columns df = [''Service'', ''Volume''] @ map fst trs
                            @ [''Total Revenue'', ''Total Variable Costs'',
                               ''Fixed Costs'', ''Total Costs'', ''Profit'']" by simp
  have "\<exists>r trs. service_body sliding_fee_schedule fcps (services ! i) = Inr (r, trs) \<and>
                      rows df ! i = take_columns (columns df) r" if i: "i < length services" for i
  proof -
    from i each obtain r' trs' where
      b': "service_body sliding_fee_schedule fcps (services ! i) = Inr (r', trs')"
      using nth_mem by blast
    with i have "rows df ! i = take_columns (columns df) r'" by (simp add: rws res)
    with b' show ?thesis by blast
  qed
  then have all: "\<forall>i < length services.
              \<exists>r trs. service_body sliding_fee_schedule fcps (services ! i) = Inr (r, trs) \<and>
                      rows df ! i = take_columns (columns df) r" by blast
  from b c have "\<exists>r trs. service_body sliding_fee_schedule fcps (last services) = Inr (r, trs) \<and>
                    columns df = [''Service'', ''Volume''] @ map fst trs
                            @ [''Total Revenue'', ''Total Variable Costs'',
                               ''Fixed Costs'', ''Total Costs'', ''Profit'']" by blast
  with df len all show ?thesis unfolding fcps_def by (intro exI [of _ df] conjI)
qed

text \<open>The engine returns a table exactly for the valid inputs.\<close>

lemma cvp_returns_iff_valid:
  "(\<exists>df. cvp_analysis_with_full_sliding_fee services sliding_fee_schedule total_fixed_costs = Inr df)
     \<longleftrightarrow> valid_input services sliding_fee_schedule"
proof
  assume "\<exists>df. cvp_analysis_with_full_sliding_fee services sliding_fee_schedule total_fixed_costs = Inr df"
  then show "valid_input services sliding_fee_schedule" using cvp_Inr_valid by blast
next
  assume "valid_input services sliding_fee_schedule"
  from cvp_rows [OF this, of total_fixed_costs]
  show "\<exists>df. cvp_analysis_with_full_sliding_fee services sliding_fee_schedule total_fixed_costs = Inr df"
    by blast
qed

lemma mem_cols:
  "cols = [''Service'', ''Volume''] @ ts @ [''Total Revenue'', ''Total Variable Costs'',
                               ''Fixed Costs'', ''Total Costs'', ''Profit''] \<Longrightarrow>
   ''Total Revenue'' \<in> set cols \<and> ''Total Variable Costs'' \<in> set cols \<and>
   ''Fixed Costs'' \<in> set cols \<and> ''Total Costs'' \<in> set cols \<and> ''Profit'' \<in> set cols"
  by simp


lemma cvp_columns:
  assumes df: "cvp_analysis_with_full_sliding_fee services sliding_fee_schedule total_fixed_costs = Inr df"
  shows "\<exists>r trs. service_body sliding_fee_schedule (total_fixed_costs / of_nat (length services))
                       (last services) = Inr (r, trs) \<and>
                    columns df = [''Service'', ''Volume''] @ map fst trs
                            @ [''Total Revenue'', ''Total Variable Costs'',
                               ''Fixed Costs'', ''Total Costs'', ''Profit'']"
    and "\<forall>r \<in> set (rows df). map fst r = columns df"
proof -
  from cvp_Inr_valid [OF df] have v: "valid_input services sliding_fee_schedule" .
  from cvp_rows [OF v, of total_fixed_costs] df
  show "\<exists>r trs. service_body sliding_fee_schedule (total_fixed_costs / of_nat (length services))
                       (last services) = Inr (r, trs) \<and>
                    columns df = [''Service'', ''Volume''] @ map fst trs
                            @ [''Total Revenue'', ''Total Variable Costs'',
                               ''Fixed Costs'', ''Total Costs'', ''Profit'']" by auto
  from cvp_rows [OF v, of total_fixed_costs] df have
    len: "length (rows df) = length services"
    and rws: "\<forall>i < length services.
              \<exists>r trs. service_body sliding_fee_schedule (total_fixed_costs / of_nat (length services)) (services ! i) = Inr (r, trs) \<and>
                      rows df ! i = take_columns (columns df) r"
    by auto
  show "\<forall>r \<in> set (rows df). map fst r = columns df"
  proof
    fix r assume "r \<in> set (rows df)"
    with len obtain i where "i < length services" "r = rows df ! i" by (metis in_set_conv_nth)
    with rws obtain r' where "r = take_columns (columns df) r'" by auto
    then show "map fst r = columns df" by (simp add: take_columns_def comp_def)
  qed
qed

lemma cvp_fixed_cost_column:
  assumes "cvp_analysis_with_full_sliding_fee services sliding_fee_schedule total_fixed_costs = Inr df"
  shows "services \<noteq> [] \<and> length (rows df) = length services \<and>
         (\<forall>r \<in> set (rows df).
            get_cell r ''Fixed Costs'' = Num (total_fixed_costs / of_nat (length services))) \<and>
         column_sum df ''Fixed Costs'' = total_fixed_costs"
proof -
  define fcps where "fcps = total_fixed_costs / of_nat (length services)"
  from cvp_Inr_valid [OF assms] have v: "valid_input services sliding_fee_schedule" .
  then have ne: "services \<noteq> []" by (simp add: valid_input_def)
  from cvp_rows [OF v, of total_fixed_costs] assms have
    len: "length (rows df) = length services"
    and cols: "\<exists>r trs. service_body sliding_fee_schedule fcps (last services) = Inr (r, trs) \<and>
                    columns df = [''Service'', ''Volume''] @ map fst trs
                            @ [''Total Revenue'', ''Total Variable Costs'',
                               ''Fixed Costs'', ''Total Costs'', ''Profit'']"
    and rws: "\<forall>i < length services.
              \<exists>r trs. service_body sliding_fee_schedule fcps (services ! i) = Inr (r, trs) \<and>
                      rows df ! i = take_columns (columns df) r"
    unfolding fcps_def by auto
  from cols mem_cols have m: "''Fixed Costs'' \<in> set (columns df)" by blast
  have cell: "get_cell r ''Fixed Costs'' = Num fcps" if "r \<in> set (rows df)" for r
  proof -
    from that len obtain i where i: "i < length services" and r: "r = rows df ! i"
      by (metis in_set_conv_nth)
    from rws i obtain r' trs where
      b: "service_body sliding_fee_schedule fcps (services ! i) = Inr (r', trs)"
      and ri: "rows df ! i = take_columns (columns df) r'" by blast
    from b obtain tiers where t: "sliding_fee_schedule (service_name (services ! i)) = Some tiers"
      by (auto simp: service_body_def split: option.splits)
    show ?thesis
      by (simp add: r ri get_cell_take_columns m service_body_cells(3) [OF b t])
  qed
  have "map (\<lambda>r. case get_cell r ''Fixed Costs'' of Num x \<Rightarrow> x | _ \<Rightarrow> 0) (rows df)
               = map (\<lambda>r. fcps) (rows df)"
    by (rule map_cong) (simp_all add: cell)
  then have "column_sum df ''Fixed Costs'' = sum_list (map (\<lambda>r. fcps) (rows df))"
    by (simp only: column_sum_def)
  also have "\<dots> = of_nat (length (rows df)) * fcps"
    by (simp add: sum_list_triv)
  also have "\<dots> = total_fixed_costs" using ne by (simp add: len fcps_def)
  finally show ?thesis using ne len cell unfolding fcps_def by blast
qed

lemma cvp_first_defect:
  assumes "services = pre @ s # post"
    and "list_all (service_ok sliding_fee_schedule) pre"
    and "service_body sliding_fee_schedule (total_fixed_costs / of_nat (length services)) s = Inl e"
  shows "cvp_analysis_with_full_sliding_fee services sliding_fee_schedule total_fixed_costs = Inl e"
proof -
  have "service_loop sliding_fee_schedule (total_fixed_costs / of_nat (length services))
          services ([], None) = Inl e"
    unfolding assms(1) using assms(2,3) service_loop_first_defect
    by (simp add: assms(1))
  moreover have "length services \<noteq> 0" by (simp add: assms(1))
  ultimately show ?thesis
    by (simp add: cvp_analysis_with_full_sliding_fee_def Let_def)
qed

lemma example_valid: "valid_input example_services example_schedule"
  by (simp add: valid_input_def example_services_def example_schedule_def service_ok_def tier_ok_def)

lemma two_valid: "valid_input two_services two_schedule"
  by (simp add: valid_input_def two_services_def two_schedule_def service_ok_def tier_ok_def)

lemma two_eval: "cvp_analysis_with_full_sliding_fee two_services two_schedule 200 = Inr two_table"
  by (simp add: eval_defs two_services_def two_schedule_def two_table_def)




section \<open>What the result depends on\<close>

text \<open>
  The schedule is read only at the names of the listed services: two schedules that
  agree there give the same result.
\<close>

lemma service_body_cong_schedule:
  assumes "sched' (service_name s) = sched (service_name s)"
  shows "service_body sched' fcps s = service_body sched fcps s"
  unfolding service_body_def by (simp only: assms)

lemma service_loop_cong_schedule:
  assumes "\<forall>x \<in> set ss. sched' (service_name x) = sched (service_name x)"
  shows "service_loop sched' fcps ss st = service_loop sched fcps ss st"
  using assms
proof (induction ss arbitrary: st)
  case Nil
  show ?case by simp
next
  case (Cons s ss)
  obtain service_data bound where st: "st = (service_data, bound)" by (cases st)
  from Cons.prems have "sched' (service_name s) = sched (service_name s)" by simp
  then have b: "service_body sched' fcps s = service_body sched fcps s"
    by (rule service_body_cong_schedule)
  from Cons.prems have r: "\<forall>x \<in> set ss. sched' (service_name x) = sched (service_name x)" by simp
  have "service_loop sched' fcps (s # ss) (service_data, bound)
          = (case service_body sched fcps s of
               Inl e \<Rightarrow> Inl e
             | Inr (r, tier_revenues) \<Rightarrow>
                 service_loop sched' fcps ss (service_data @ [r], Some tier_revenues))"
    by (simp only: service_loop.simps b)
  also have "\<dots> = (case service_body sched fcps s of
               Inl e \<Rightarrow> Inl e
             | Inr (r, tier_revenues) \<Rightarrow>
                 service_loop sched fcps ss (service_data @ [r], Some tier_revenues))"
    by (simp only: Cons.IH [OF r])
  also have "\<dots> = service_loop sched fcps (s # ss) (service_data, bound)"
    by (simp only: service_loop.simps)
  finally show ?case by (simp only: st)
qed

lemma cvp_cong_schedule:
  assumes "\<forall>x \<in> set services. sched' (service_name x) = sched (service_name x)"
  shows "cvp_analysis_with_full_sliding_fee services sched' total_fixed_costs
     = cvp_analysis_with_full_sliding_fee services sched total_fixed_costs"
  unfolding cvp_analysis_with_full_sliding_fee_def
  by (simp only: service_loop_cong_schedule [OF assms])

text \<open>An incomplete tier entry stops the inner loop with one of the two keys.\<close>

lemma tier_loop_some_defect:
  assumes "\<not> list_all (\<lambda>(tier, vals). tier_ok vals) tiers"
  shows "tier_loop vol tiers st = Inl (KeyError ''percentage'') \<or>
         tier_loop vol tiers st = Inl (KeyError ''price'')"
proof -
  from assms have "\<exists>x \<in> set tiers. \<not> (case x of (tier, vals) \<Rightarrow> tier_ok vals)"
    by (simp add: list_all_iff)
  from split_list_first_prop [OF this] obtain tpre x tpost where
    t: "tiers = tpre @ x # tpost" and nx: "\<not> (case x of (tier, vals) \<Rightarrow> tier_ok vals)"
    and pre: "\<forall>y \<in> set tpre. (case y of (tier, vals) \<Rightarrow> tier_ok vals)" by blast
  obtain tier vals where x: "x = (tier, vals)" by (cases x)
  obtain tr trs where st: "st = (tr, trs)" by (cases st)
  from pre have p: "list_all (\<lambda>(tier, vals). tier_ok vals) tpre" by (simp add: list_all_iff)
  from nx have n: "\<not> tier_ok vals" by (simp add: x)
  from tier_loop_first_defect [OF p n, of vol tier tpost tr trs] show ?thesis
    by (simp add: t x st split: if_splits)
qed

lemma service_body_some_defect:
  assumes "sched (service_name s) = Some tiers"
    and "\<not> service_ok sched s"
  shows "service_body sched fcps s = Inl (KeyError ''percentage'') \<or>
         service_body sched fcps s = Inl (KeyError ''price'')"
proof -
  from assms have "\<not> list_all (\<lambda>(tier, vals). tier_ok vals) tiers"
    by (simp add: service_ok_def)
  from tier_loop_some_defect [OF this, of "volume s" "(0, [])"] show ?thesis
    by (auto simp: service_body_def assms(1))
qed

section \<open>Rounded arithmetic\<close>

text \<open>
  What holds of the engine whatever the rounding is, the identity and \<open>double\<close>
  among them.
\<close>

lemma tier_loop_rounded_ok:
  "list_all (\<lambda>(tier, vals). tier_ok vals) tiers \<Longrightarrow>
   \<exists>tr' trs'. tier_loop_rounded rnd vol tiers (tr, trs) = Inr (tr', trs')"
proof (induction tiers arbitrary: tr trs)
  case Nil
  show ?case by simp
next
  case (Cons a tiers)
  obtain tier vals where a: "a = (tier, vals)" by (cases a)
  from Cons.prems obtain pct pr where v: "percentage vals = Some pct" "price vals = Some pr"
    and rest: "list_all (\<lambda>(tier, vals). tier_ok vals) tiers"
    by (auto simp: a tier_ok_def)
  show ?case
    by (simp add: a v Cons.IH [OF rest] Let_def)
qed

lemma service_body_rounded_row:
  assumes "service_body_rounded rnd sliding_fee_schedule fcps s = Inr (r, trs)"
  shows "\<exists>total_revenue.
           r = dict_display
                 ([(''Service'', Str (service_name s)), (''Volume'', Num (volume s))]
                  @ map (\<lambda>(k, v). (k, Num v)) trs
                  @ [(''Total Revenue'', Num total_revenue),
                     (''Total Variable Costs'', Num (rnd (variable_cost_per_unit s * volume s))),
                     (''Fixed Costs'', Num fcps),
                     (''Total Costs'', Num (rnd (rnd (variable_cost_per_unit s * volume s) + fcps))),
                     (''Profit'', Num (rnd (total_revenue
                         - rnd (rnd (variable_cost_per_unit s * volume s) + fcps))))])"
  using assms
  by (auto simp: service_body_rounded_def Let_def split: option.splits sum.splits prod.splits)

lemma service_ok_rounded_Inr:
  assumes "service_ok sliding_fee_schedule s"
  shows "\<exists>r trs. service_body_rounded rnd sliding_fee_schedule fcps s = Inr (r, trs)"
proof -
  from assms obtain tiers where t: "sliding_fee_schedule (service_name s) = Some tiers"
    and a: "list_all (\<lambda>(tier, vals). tier_ok vals) tiers"
    by (auto simp: service_ok_def split: option.splits)
  from tier_loop_rounded_ok [OF a, of rnd "volume s" 0 "[]"] obtain tr' trs' where
    "tier_loop_rounded rnd (volume s) tiers (0, []) = Inr (tr', trs')" by blast
  then show ?thesis by (simp add: service_body_rounded_def t Let_def)
qed

lemma service_body_rounded_keys:
  assumes "service_body_rounded rnd sliding_fee_schedule fcps s = Inr (r, trs)"
  shows "fst ` set r = {''Service'', ''Volume'', ''Total Revenue'', ''Total Variable Costs'',
                        ''Fixed Costs'', ''Total Costs'', ''Profit''} \<union> fst ` set trs"
proof -
  have k: "fst ` set (map (\<lambda>(k, v). (k, Num v)) trs) = fst ` set trs"
    by (force simp: image_iff)
  from service_body_rounded_row [OF assms] obtain tr where r: "r = dict_display
                 ([(''Service'', Str (service_name s)), (''Volume'', Num (volume s))]
                  @ map (\<lambda>(k, v). (k, Num v)) trs
                  @ [(''Total Revenue'', Num tr),
                     (''Total Variable Costs'', Num (rnd (variable_cost_per_unit s * volume s))),
                     (''Fixed Costs'', Num fcps),
                     (''Total Costs'', Num (rnd (rnd (variable_cost_per_unit s * volume s) + fcps))),
                     (''Profit'', Num (rnd (tr
                         - rnd (rnd (variable_cost_per_unit s * volume s) + fcps))))])"
    by blast
  show ?thesis
    unfolding r keys_dict_display set_append image_Un k by auto
qed

lemma service_loop_rounded_ok:
  "list_all (service_ok sliding_fee_schedule) ss \<Longrightarrow>
   service_loop_rounded rnd sliding_fee_schedule fcps ss (service_data, bound) =
     Inr (service_data @ map (\<lambda>s. fst (projr (service_body_rounded rnd sliding_fee_schedule fcps s))) ss,
          if ss = [] then bound
          else Some (snd (projr (service_body_rounded rnd sliding_fee_schedule fcps (last ss)))))"
proof (induction ss arbitrary: service_data bound)
  case Nil
  show ?case by simp
next
  case (Cons s ss)
  from Cons.prems have ok: "service_ok sliding_fee_schedule s"
    and rest: "list_all (service_ok sliding_fee_schedule) ss" by simp_all
  from service_ok_rounded_Inr [OF ok] obtain r trs where
    b: "service_body_rounded rnd sliding_fee_schedule fcps s = Inr (r, trs)" by blast
  show ?case by (simp add: b Cons.IH [OF rest])
qed

lemma cvp_rounded_valid:
  assumes "valid_input services sliding_fee_schedule"
    and fcps_def: "fcps = rnd (total_fixed_costs / of_nat (length services))"
    and results_def: "results = map (\<lambda>s. projr (service_body_rounded rnd sliding_fee_schedule fcps s)) services"
    and cols_def: "cols = [''Service'', ''Volume''] @ map fst (snd (last results))
                            @ [''Total Revenue'', ''Total Variable Costs'',
                               ''Fixed Costs'', ''Total Costs'', ''Profit'']"
  shows "cvp_analysis_rounded rnd services sliding_fee_schedule total_fixed_costs =
             Inr \<lparr>columns = cols, rows = map (\<lambda>(r, trs). take_columns cols r) results\<rparr>"
    and "\<forall>s \<in> set services. \<exists>r trs. service_body_rounded rnd sliding_fee_schedule fcps s = Inr (r, trs)"
proof -
  from assms have ne: "services \<noteq> []" and ok: "list_all (service_ok sliding_fee_schedule) services"
    by (simp_all add: valid_input_def)
  show each: "\<forall>s \<in> set services. \<exists>r trs. service_body_rounded rnd sliding_fee_schedule fcps s = Inr (r, trs)"
    using ok service_ok_rounded_Inr by (auto simp: list_all_iff)
  have loop: "service_loop_rounded rnd sliding_fee_schedule fcps services ([], None)
                = Inr (map fst results, Some (snd (last results)))"
    using service_loop_rounded_ok [OF ok, of rnd fcps "[]" None] ne
    by (simp add: results_def last_map comp_def)
  have lastin: "last services \<in> set services" using ne by simp
  with each obtain r trs where
    b: "service_body_rounded rnd sliding_fee_schedule fcps (last services) = Inr (r, trs)" by blast
  have lr: "last results = (r, trs)" using ne b by (simp add: results_def last_map)
  have rin: "r \<in> set (map fst results)"
    using lastin b by (force simp: results_def image_iff)
  have "set cols \<subseteq> fst ` set r"
    unfolding cols_def lr service_body_rounded_keys [OF b] by auto
  with rin have sub: "set cols \<subseteq> (\<Union>r \<in> set (map fst results). fst ` set r)" by blast
  have "cvp_analysis_rounded rnd services sliding_fee_schedule total_fixed_costs
          = getitem_columns (DataFrame (map fst results)) cols"
    using ne loop
    by (simp add: cvp_analysis_rounded_def Let_def fcps_def [symmetric] cols_def)
  also have "\<dots> = Inr \<lparr>columns = cols, rows = map (take_columns cols) (map fst results)\<rparr>"
    by (rule getitem_DataFrame [OF sub])
  finally show "cvp_analysis_rounded rnd services sliding_fee_schedule total_fixed_costs =
             Inr \<lparr>columns = cols, rows = map (\<lambda>(r, trs). take_columns cols r) results\<rparr>"
    by (simp add: comp_def case_prod_unfold)
qed

lemma cvp_rounded_rows:
  assumes "valid_input services sliding_fee_schedule"
  shows "\<exists>df. cvp_analysis_rounded rnd services sliding_fee_schedule total_fixed_costs = Inr df \<and>
           length (rows df) = length services \<and>
           (\<exists>r trs. service_body_rounded rnd sliding_fee_schedule (rnd (total_fixed_costs / of_nat (length services)))
                       (last services) = Inr (r, trs) \<and>
                    columns df = [''Service'', ''Volume''] @ map fst trs
                            @ [''Total Revenue'', ''Total Variable Costs'',
                               ''Fixed Costs'', ''Total Costs'', ''Profit'']) \<and>
           (\<forall>i < length services.
              \<exists>r trs. service_body_rounded rnd sliding_fee_schedule (rnd (total_fixed_costs / of_nat (length services)))
                       (services ! i) = Inr (r, trs) \<and>
                      rows df ! i = take_columns (columns df) r)"
proof -
  define fcps where "fcps = rnd (total_fixed_costs / of_nat (length services))"
  from assms have ne: "services \<noteq> []" by (simp add: valid_input_def)
  define results where "results = map (\<lambda>s. projr (service_body_rounded rnd sliding_fee_schedule fcps s)) services"
  define cols where "cols = [''Service'', ''Volume''] @ map fst (snd (last results))
                            @ [''Total Revenue'', ''Total Variable Costs'',
                               ''Fixed Costs'', ''Total Costs'', ''Profit'']"
  define df where "df = \<lparr>columns = cols, rows = map (\<lambda>(r, trs). take_columns cols r) results\<rparr>"
  note res = results_def
  from cvp_rounded_valid [OF assms fcps_def results_def cols_def]
  have df: "cvp_analysis_rounded rnd services sliding_fee_schedule total_fixed_costs = Inr df"
    and each: "\<forall>s \<in> set services. \<exists>r trs. service_body_rounded rnd sliding_fee_schedule fcps s = Inr (r, trs)"
    by (simp_all add: df_def)
  have cols: "columns df = [''Service'', ''Volume''] @ map fst (snd (last results))
                            @ [''Total Revenue'', ''Total Variable Costs'',
                               ''Fixed Costs'', ''Total Costs'', ''Profit'']"
    by (simp add: df_def cols_def)
  have rws: "rows df = map (\<lambda>(r, trs). take_columns (columns df) r) results"
    by (simp add: df_def)
  have len: "length (rows df) = length services" by (simp add: rws res)
  have "last services \<in> set services" using ne by simp
  with each obtain r trs where
    b: "service_body_rounded rnd sliding_fee_schedule fcps (last services) = Inr (r, trs)" by blast
  then have "last results = (r, trs)" using ne by (simp add: res last_map)
  with cols have c: "columns df = [''Service'', ''Volume''] @ map fst trs
                            @ [''Total Revenue'', ''Total Variable Costs'',
                               ''Fixed Costs'', ''Total Costs'', ''Profit'']" by simp
  have "\<exists>r trs. service_body_rounded rnd sliding_fee_schedule fcps (services ! i) = Inr (r, trs) \<and>
                      rows df ! i = take_columns (columns df) r" if i: "i < length services" for i
  proof -
    from i each obtain r' trs' where
      b': "service_body_rounded rnd sliding_fee_schedule fcps (services ! i) = Inr (r', trs')"
      using nth_mem by blast
    with i have "rows df ! i = take_columns (columns df) r'" by (simp add: rws res)
    with b' show ?thesis by blast
  qed
  then have all: "\<forall>i < length services.
              \<exists>r trs. service_body_rounded rnd sliding_fee_schedule fcps (services ! i) = Inr (r, trs) \<and>
                      rows df ! i = take_columns (columns df) r" by blast
  from b c have "\<exists>r trs. service_body_rounded rnd sliding_fee_schedule fcps (last services) = Inr (r, trs) \<and>
                    columns df = [''Service'', ''Volume''] @ map fst trs
                            @ [''Total Revenue'', ''Total Variable Costs'',
                               ''Fixed Costs'', ''Total Costs'', ''Profit'']" by blast
  with df len all show ?thesis unfolding fcps_def by (intro exI [of _ df] conjI)
qed

lemma service_body_rounded_cells:
  assumes "service_body_rounded rnd sliding_fee_schedule fcps s = Inr (r, trs)"
  shows "\<exists>total_revenue.
           get_cell r ''Total Revenue'' = Num total_revenue \<and>
           get_cell r ''Total Variable Costs'' = Num (rnd (variable_cost_per_unit s * volume s)) \<and>
           get_cell r ''Fixed Costs'' = Num fcps \<and>
           get_cell r ''Total Costs'' = Num (rnd (rnd (variable_cost_per_unit s * volume s) + fcps)) \<and>
           get_cell r ''Profit''
             = Num (rnd (total_revenue - rnd (rnd (variable_cost_per_unit s * volume s) + fcps)))"
proof -
  from service_body_rounded_row [OF assms] obtain tr where r: "r = dict_display
                 ([(''Service'', Str (service_name s)), (''Volume'', Num (volume s))]
                  @ map (\<lambda>(k, v). (k, Num v)) trs
                  @ [(''Total Revenue'', Num tr),
                     (''Total Variable Costs'', Num (rnd (variable_cost_per_unit s * volume s))),
                     (''Fixed Costs'', Num fcps),
                     (''Total Costs'', Num (rnd (rnd (variable_cost_per_unit s * volume s) + fcps))),
                     (''Profit'', Num (rnd (tr
                         - rnd (rnd (variable_cost_per_unit s * volume s) + fcps))))])"
    by blast
  have "get_cell r ''Total Revenue'' = Num tr"
    by (simp add: r get_cell_def map_of_dict_display)
  moreover have "get_cell r ''Total Variable Costs'' = Num (rnd (variable_cost_per_unit s * volume s))"
    by (simp add: r get_cell_def map_of_dict_display)
  moreover have "get_cell r ''Fixed Costs'' = Num fcps"
    by (simp add: r get_cell_def map_of_dict_display)
  moreover have "get_cell r ''Total Costs''
                   = Num (rnd (rnd (variable_cost_per_unit s * volume s) + fcps))"
    by (simp add: r get_cell_def map_of_dict_display)
  moreover have "get_cell r ''Profit''
             = Num (rnd (tr - rnd (rnd (variable_cost_per_unit s * volume s) + fcps)))"
    by (simp add: r get_cell_def map_of_dict_display)
  ultimately show ?thesis by blast
qed

lemma tier_loop_rounded_exact:
  "tier_loop_rounded (\<lambda>x. x) vol tiers st = tier_loop vol tiers st"
proof (induction tiers arbitrary: st)
  case Nil
  show ?case by (cases st) simp
next
  case (Cons a tiers)
  obtain tier vals where a: "a = (tier, vals)" by (cases a)
  obtain tr trs where st: "st = (tr, trs)" by (cases st)
  show ?case by (simp add: a st Cons.IH Let_def split: option.splits)
qed

lemma service_body_rounded_exact:
  "service_body_rounded (\<lambda>x. x) sliding_fee_schedule fcps s = service_body sliding_fee_schedule fcps s"
  by (simp add: service_body_rounded_def service_body_def tier_loop_rounded_exact
           split: option.splits)

lemma service_loop_rounded_exact:
  "service_loop_rounded (\<lambda>x. x) sliding_fee_schedule fcps ss st
     = service_loop sliding_fee_schedule fcps ss st"
proof (induction ss arbitrary: st)
  case Nil
  show ?case by simp
next
  case (Cons s ss)
  obtain service_data bound where st: "st = (service_data, bound)" by (cases st)
  show ?case by (simp add: st service_body_rounded_exact Cons.IH split: sum.splits prod.splits)
qed

lemma cvp_analysis_rounded_exact:
  "cvp_analysis_rounded (\<lambda>x. x) services sliding_fee_schedule total_fixed_costs
     = cvp_analysis_with_full_sliding_fee services sliding_fee_schedule total_fixed_costs"
  by (simp add: cvp_analysis_rounded_def cvp_analysis_with_full_sliding_fee_def
        service_loop_rounded_exact split: sum.splits prod.splits option.splits)

lemma cvp_rounded_cells:
  assumes "valid_input services sliding_fee_schedule"
  shows "\<exists>df. cvp_analysis_rounded rnd services sliding_fee_schedule total_fixed_costs = Inr df \<and>
           length (rows df) = length services \<and>
           (\<forall>i < length services.
              \<exists>total_revenue total_costs.
                get_cell (rows df ! i) ''Total Revenue'' = Num total_revenue \<and>
                get_cell (rows df ! i) ''Total Variable Costs''
                  = Num (rnd (variable_cost_per_unit (services ! i) * volume (services ! i))) \<and>
                get_cell (rows df ! i) ''Fixed Costs''
                  = Num (rnd (total_fixed_costs / of_nat (length services))) \<and>
                get_cell (rows df ! i) ''Total Costs'' = Num total_costs \<and>
                total_costs = rnd (rnd (variable_cost_per_unit (services ! i) * volume (services ! i))
                                   + rnd (total_fixed_costs / of_nat (length services))) \<and>
                get_cell (rows df ! i) ''Profit'' = Num (rnd (total_revenue - total_costs)))"
proof -
  define fcps where "fcps = rnd (total_fixed_costs / of_nat (length services))"
  from cvp_rounded_rows [OF assms, of rnd total_fixed_costs] obtain df where
    df: "cvp_analysis_rounded rnd services sliding_fee_schedule total_fixed_costs = Inr df"
    and len: "length (rows df) = length services"
    and cols: "\<exists>r trs. service_body_rounded rnd sliding_fee_schedule fcps (last services) = Inr (r, trs) \<and>
                    columns df = [''Service'', ''Volume''] @ map fst trs
                            @ [''Total Revenue'', ''Total Variable Costs'',
                               ''Fixed Costs'', ''Total Costs'', ''Profit'']"
    and rws: "\<forall>i < length services.
              \<exists>r trs. service_body_rounded rnd sliding_fee_schedule fcps (services ! i) = Inr (r, trs) \<and>
                      rows df ! i = take_columns (columns df) r"
    unfolding fcps_def by blast
  from cols mem_cols have m: "''Total Revenue'' \<in> set (columns df)"
    "''Total Variable Costs'' \<in> set (columns df)" "''Fixed Costs'' \<in> set (columns df)"
    "''Total Costs'' \<in> set (columns df)" "''Profit'' \<in> set (columns df)" by blast+
  have "\<exists>total_revenue total_costs.
                get_cell (rows df ! i) ''Total Revenue'' = Num total_revenue \<and>
                get_cell (rows df ! i) ''Total Variable Costs''
                  = Num (rnd (variable_cost_per_unit (services ! i) * volume (services ! i))) \<and>
                get_cell (rows df ! i) ''Fixed Costs'' = Num fcps \<and>
                get_cell (rows df ! i) ''Total Costs'' = Num total_costs \<and>
                total_costs = rnd (rnd (variable_cost_per_unit (services ! i) * volume (services ! i))
                                   + fcps) \<and>
                get_cell (rows df ! i) ''Profit'' = Num (rnd (total_revenue - total_costs))"
    if i: "i < length services" for i
  proof -
    from rws i obtain r trs where
      b: "service_body_rounded rnd sliding_fee_schedule fcps (services ! i) = Inr (r, trs)"
      and ri: "rows df ! i = take_columns (columns df) r" by blast
    from service_body_rounded_cells [OF b] obtain tr where
      "get_cell r ''Total Revenue'' = Num tr"
      "get_cell r ''Total Variable Costs''
         = Num (rnd (variable_cost_per_unit (services ! i) * volume (services ! i)))"
      "get_cell r ''Fixed Costs'' = Num fcps"
      "get_cell r ''Total Costs''
         = Num (rnd (rnd (variable_cost_per_unit (services ! i) * volume (services ! i)) + fcps))"
      "get_cell r ''Profit''
         = Num (rnd (tr - rnd (rnd (variable_cost_per_unit (services ! i) * volume (services ! i)) + fcps)))"
      by blast
    then show ?thesis by (simp add: ri get_cell_take_columns m)
  qed
  with df len show ?thesis unfolding fcps_def by blast
qed

lemma float_valid: "valid_input float_services float_schedule"
  by (simp add: valid_input_def float_services_def float_schedule_def service_ok_def tier_ok_def
           del: not_None_eq)

lemma float_eval:
  "cvp_analysis_rounded double float_services float_schedule (double (2 / 10)) = Inr float_table"
  by code_simp

section \<open>Profit\<close>

text \<open>
  C1, as the engine groups it. For a valid input the engine returns a table with one
  row per service, whatever the rounding of the arithmetic is, and in every row
  the total variable costs are the unit cost times the volume, the fixed costs are the
  total fixed costs divided by the number of services, the total costs are the total
  variable costs plus the fixed costs, and the profit is the total revenue minus the
  total costs, each operation rounded once (lines 54, 30, 57 and 60). When no operation
  rounds, the profit is the total revenue minus the total variable costs minus the
  fixed costs.
\<close>

theorem profit_as_computed:
  assumes "valid_input services sliding_fee_schedule"
  shows "(\<exists>df. cvp_analysis_rounded rnd services sliding_fee_schedule total_fixed_costs = Inr df \<and>
           length (rows df) = length services \<and>
           (\<forall>i < length services.
              \<exists>total_revenue total_costs.
                get_cell (rows df ! i) ''Total Revenue'' = Num total_revenue \<and>
                get_cell (rows df ! i) ''Total Variable Costs''
                  = Num (rnd (variable_cost_per_unit (services ! i) * volume (services ! i))) \<and>
                get_cell (rows df ! i) ''Fixed Costs''
                  = Num (rnd (total_fixed_costs / of_nat (length services))) \<and>
                get_cell (rows df ! i) ''Total Costs'' = Num total_costs \<and>
                total_costs = rnd (rnd (variable_cost_per_unit (services ! i) * volume (services ! i))
                                   + rnd (total_fixed_costs / of_nat (length services))) \<and>
                get_cell (rows df ! i) ''Profit'' = Num (rnd (total_revenue - total_costs)))) \<and>
         (\<exists>df. cvp_analysis_rounded (\<lambda>x. x) services sliding_fee_schedule total_fixed_costs = Inr df \<and>
           length (rows df) = length services \<and>
           (\<forall>i < length services.
              \<exists>total_revenue.
                get_cell (rows df ! i) ''Total Revenue'' = Num total_revenue \<and>
                get_cell (rows df ! i) ''Total Variable Costs''
                  = Num (variable_cost_per_unit (services ! i) * volume (services ! i)) \<and>
                get_cell (rows df ! i) ''Fixed Costs''
                  = Num (total_fixed_costs / of_nat (length services)) \<and>
                get_cell (rows df ! i) ''Profit''
                  = Num (total_revenue
                         - variable_cost_per_unit (services ! i) * volume (services ! i)
                         - total_fixed_costs / of_nat (length services))))"
proof (rule conjI)
  show "\<exists>df. cvp_analysis_rounded rnd services sliding_fee_schedule total_fixed_costs = Inr df \<and>
           length (rows df) = length services \<and>
           (\<forall>i < length services.
              \<exists>total_revenue total_costs.
                get_cell (rows df ! i) ''Total Revenue'' = Num total_revenue \<and>
                get_cell (rows df ! i) ''Total Variable Costs''
                  = Num (rnd (variable_cost_per_unit (services ! i) * volume (services ! i))) \<and>
                get_cell (rows df ! i) ''Fixed Costs''
                  = Num (rnd (total_fixed_costs / of_nat (length services))) \<and>
                get_cell (rows df ! i) ''Total Costs'' = Num total_costs \<and>
                total_costs = rnd (rnd (variable_cost_per_unit (services ! i) * volume (services ! i))
                                   + rnd (total_fixed_costs / of_nat (length services))) \<and>
                get_cell (rows df ! i) ''Profit'' = Num (rnd (total_revenue - total_costs)))"
    by (rule cvp_rounded_cells [OF assms])
next
  from cvp_rounded_cells [OF assms, of "\<lambda>x. x" total_fixed_costs] obtain df where
    df: "cvp_analysis_rounded (\<lambda>x. x) services sliding_fee_schedule total_fixed_costs = Inr df"
    and len: "length (rows df) = length services"
    and c: "\<forall>i < length services.
              \<exists>total_revenue total_costs.
                get_cell (rows df ! i) ''Total Revenue'' = Num total_revenue \<and>
                get_cell (rows df ! i) ''Total Variable Costs''
                  = Num (variable_cost_per_unit (services ! i) * volume (services ! i)) \<and>
                get_cell (rows df ! i) ''Fixed Costs''
                  = Num (total_fixed_costs / of_nat (length services)) \<and>
                get_cell (rows df ! i) ''Total Costs'' = Num total_costs \<and>
                total_costs = variable_cost_per_unit (services ! i) * volume (services ! i)
                                   + total_fixed_costs / of_nat (length services) \<and>
                get_cell (rows df ! i) ''Profit'' = Num (total_revenue - total_costs)"
    by blast
  have "\<exists>total_revenue.
                get_cell (rows df ! i) ''Total Revenue'' = Num total_revenue \<and>
                get_cell (rows df ! i) ''Total Variable Costs''
                  = Num (variable_cost_per_unit (services ! i) * volume (services ! i)) \<and>
                get_cell (rows df ! i) ''Fixed Costs''
                  = Num (total_fixed_costs / of_nat (length services)) \<and>
                get_cell (rows df ! i) ''Profit''
                  = Num (total_revenue
                         - variable_cost_per_unit (services ! i) * volume (services ! i)
                         - total_fixed_costs / of_nat (length services))"
    if i: "i < length services" for i
  proof -
    from c i obtain tr tc where
      "get_cell (rows df ! i) ''Total Revenue'' = Num tr"
      "get_cell (rows df ! i) ''Total Variable Costs''
                  = Num (variable_cost_per_unit (services ! i) * volume (services ! i))"
      "get_cell (rows df ! i) ''Fixed Costs'' = Num (total_fixed_costs / of_nat (length services))"
      "tc = variable_cost_per_unit (services ! i) * volume (services ! i)
                                   + total_fixed_costs / of_nat (length services)"
      "get_cell (rows df ! i) ''Profit'' = Num (tr - tc)" by blast
    then show ?thesis by (simp add: diff_diff_eq)
  qed
  with df len show "\<exists>df. cvp_analysis_rounded (\<lambda>x. x) services sliding_fee_schedule total_fixed_costs = Inr df \<and>
           length (rows df) = length services \<and>
           (\<forall>i < length services.
              \<exists>total_revenue.
                get_cell (rows df ! i) ''Total Revenue'' = Num total_revenue \<and>
                get_cell (rows df ! i) ''Total Variable Costs''
                  = Num (variable_cost_per_unit (services ! i) * volume (services ! i)) \<and>
                get_cell (rows df ! i) ''Fixed Costs''
                  = Num (total_fixed_costs / of_nat (length services)) \<and>
                get_cell (rows df ! i) ''Profit''
                  = Num (total_revenue
                         - variable_cost_per_unit (services ! i) * volume (services ! i)
                         - total_fixed_costs / of_nat (length services)))"
    by blast
qed

text \<open>
  The input with \<^verbatim>\<open>0.1\<close>, \<open>0.3\<close> and \<open>0.2\<close>, in binary floating point and in exact
  arithmetic.
\<close>

theorem profit_as_computed_witness:
  "valid_input float_services float_schedule \<and>
   (\<exists>df. cvp_analysis_rounded double float_services float_schedule (double (2 / 10)) = Inr df \<and>
         length (rows df) = 1 \<and>
         (\<exists>total_revenue total_costs.
            get_cell (rows df ! 0) ''Total Revenue'' = Num total_revenue \<and>
            get_cell (rows df ! 0) ''Total Costs'' = Num total_costs \<and>
            get_cell (rows df ! 0) ''Profit'' = Num (double (total_revenue - total_costs)))) \<and>
   (\<exists>df. cvp_analysis_rounded (\<lambda>x. x) float_services float_schedule (double (2 / 10)) = Inr df \<and>
         length (rows df) = 1 \<and>
         (\<exists>total_revenue.
            get_cell (rows df ! 0) ''Total Revenue'' = Num total_revenue \<and>
            get_cell (rows df ! 0) ''Profit''
              = Num (total_revenue - double (1 / 10) * 1 - double (2 / 10) / 1)))"
proof -
  have l: "length float_services = 1" by (simp add: float_services_def)
  have s: "variable_cost_per_unit (float_services ! 0) = double (1 / 10)"
    "volume (float_services ! 0) = 1" by (simp_all add: float_services_def)
  note t = profit_as_computed [OF float_valid, of double "double (2 / 10)"]
  from t [THEN conjunct1] obtain df where
    df: "cvp_analysis_rounded double float_services float_schedule (double (2 / 10)) = Inr df"
    and len: "length (rows df) = 1"
    and c: "\<exists>total_revenue total_costs.
            get_cell (rows df ! 0) ''Total Revenue'' = Num total_revenue \<and>
            get_cell (rows df ! 0) ''Total Costs'' = Num total_costs \<and>
            get_cell (rows df ! 0) ''Profit'' = Num (double (total_revenue - total_costs))"
    unfolding l by auto
  from t [THEN conjunct2] obtain df' where
    df': "cvp_analysis_rounded (\<lambda>x. x) float_services float_schedule (double (2 / 10)) = Inr df'"
    and len': "length (rows df') = 1"
    and c': "\<exists>total_revenue.
            get_cell (rows df' ! 0) ''Total Revenue'' = Num total_revenue \<and>
            get_cell (rows df' ! 0) ''Profit''
              = Num (total_revenue - double (1 / 10) * 1 - double (2 / 10) / 1)"
    unfolding l using s by auto
  from df len c have a: "\<exists>df. cvp_analysis_rounded double float_services float_schedule (double (2 / 10)) = Inr df \<and>
         length (rows df) = 1 \<and>
         (\<exists>total_revenue total_costs.
            get_cell (rows df ! 0) ''Total Revenue'' = Num total_revenue \<and>
            get_cell (rows df ! 0) ''Total Costs'' = Num total_costs \<and>
            get_cell (rows df ! 0) ''Profit'' = Num (double (total_revenue - total_costs)))"
    by blast
  from df' len' c' have b: "\<exists>df. cvp_analysis_rounded (\<lambda>x. x) float_services float_schedule (double (2 / 10)) = Inr df \<and>
         length (rows df) = 1 \<and>
         (\<exists>total_revenue.
            get_cell (rows df ! 0) ''Total Revenue'' = Num total_revenue \<and>
            get_cell (rows df ! 0) ''Profit''
              = Num (total_revenue - double (1 / 10) * 1 - double (2 / 10) / 1))"
    by blast
  from float_valid a b show ?thesis by (intro conjI)
qed

text \<open>
  C1 with the costs subtracted one after the other does not hold in binary floating
  point. With unit cost \<^verbatim>\<open>0.1\<close>, price \<open>0.3\<close>, fixed costs \<open>0.2\<close>, volume 1 and
  percentage 1 the engine's profit is \<open>0.3 - (0.1 + 0.2)\<close>, which is \<open>- 2 ^ -54\<close>,
  while \<open>0.3 - 0.1 - 0.2\<close> is \<open>- 2 ^ -55\<close>, evaluated in floating point or exactly.
\<close>

theorem profit_regrouped_counterexample:
  "cvp_analysis_rounded double float_services float_schedule (double (2 / 10)) = Inr float_table \<and>
   get_cell (rows float_table ! 0) ''Total Revenue'' = Num (double (3 / 10)) \<and>
   get_cell (rows float_table ! 0) ''Total Variable Costs'' = Num (double (1 / 10)) \<and>
   get_cell (rows float_table ! 0) ''Fixed Costs'' = Num (double (2 / 10)) \<and>
   get_cell (rows float_table ! 0) ''Profit'' = Num (- (1 / 18014398509481984)) \<and>
   double (double (double (3 / 10) - double (1 / 10)) - double (2 / 10))
     = - (1 / 36028797018963968) \<and>
   double (3 / 10) - double (1 / 10) - double (2 / 10) = - (1 / 36028797018963968)"
  by code_simp

section \<open>Total revenue\<close>



section \<open>Fixed costs\<close>

text \<open>
  C3. Whenever the engine returns a table, the list of services is not empty, every row
  carries the same fixed costs, the total divided by the number of services, and the
  fixed costs of all rows sum to the total fixed costs.
\<close>

theorem fixed_cost_sum:
  assumes "cvp_analysis_with_full_sliding_fee services sliding_fee_schedule total_fixed_costs = Inr df"
  shows "services \<noteq> [] \<and> length (rows df) = length services \<and>
         (\<forall>r \<in> set (rows df).
            get_cell r ''Fixed Costs'' = Num (total_fixed_costs / of_nat (length services))) \<and>
         column_sum df ''Fixed Costs'' = total_fixed_costs"
  by (rule cvp_fixed_cost_column [OF assms])

text \<open>Two services share fixed costs of 200: each row carries 100.\<close>

theorem fixed_cost_sum_witness:
  "cvp_analysis_with_full_sliding_fee two_services two_schedule 200 = Inr two_table \<and>
   length (rows two_table) = 2 \<and>
   get_cell (rows two_table ! 0) ''Fixed Costs'' = Num 100 \<and>
   get_cell (rows two_table ! 1) ''Fixed Costs'' = Num 100 \<and>
   column_sum two_table ''Fixed Costs'' = 200"
proof -
  from fixed_cost_sum [OF two_eval]
  have "column_sum two_table ''Fixed Costs'' = 200" by simp
  then show ?thesis
    by (simp add: two_eval) (simp add: two_table_def get_cell_def)
qed

section \<open>Empty input\<close>

text \<open>
  C4. Called with an empty list of services, the engine fails and returns no table: the
  division by \<^verbatim>\<open>len(services)\<close> on line 30 raises before any service is looked at.
  The error is Python's \<^verbatim>\<open>ZeroDivisionError\<close>, the engine's failure for an empty
  list of services.
\<close>

theorem empty_services_fails:
  "cvp_analysis_with_full_sliding_fee [] sliding_fee_schedule total_fixed_costs
     = Inl ZeroDivisionError"
  by (simp add: cvp_analysis_with_full_sliding_fee_def)

section \<open>Failures\<close>

text \<open>
  C5, for the first defect. When the schedule has no entry for the name of some service, the
  engine fails and returns no table. When in addition every service listed before that
  one is covered, the failure is the \<^verbatim>\<open>KeyError\<close> of line 39, carrying the name of
  that service.
\<close>

theorem missing_schedule_fails:
  assumes "services = pre @ s # post"
    and "sliding_fee_schedule (service_name s) = None"
  shows "isl (cvp_analysis_with_full_sliding_fee services sliding_fee_schedule total_fixed_costs) \<and>
         (list_all (service_ok sliding_fee_schedule) pre \<longrightarrow>
            cvp_analysis_with_full_sliding_fee services sliding_fee_schedule total_fixed_costs
              = Inl (KeyError (service_name s)))"
proof
  show "isl (cvp_analysis_with_full_sliding_fee services sliding_fee_schedule total_fixed_costs)"
  proof (cases "cvp_analysis_with_full_sliding_fee services sliding_fee_schedule total_fixed_costs")
    case (Inl e)
    then show ?thesis by simp
  next
    case (Inr df)
    from cvp_Inr_valid [OF Inr] have "service_ok sliding_fee_schedule s"
      by (simp add: valid_input_def assms(1))
    with assms(2) show ?thesis by (simp add: service_ok_def)
  qed
next
  have b: "service_body sliding_fee_schedule (total_fixed_costs / of_nat (length services)) s
             = Inl (KeyError (service_name s))"
    by (simp add: service_body_def assms(2))
  show "list_all (service_ok sliding_fee_schedule) pre \<longrightarrow>
            cvp_analysis_with_full_sliding_fee services sliding_fee_schedule total_fixed_costs
              = Inl (KeyError (service_name s))"
    using cvp_first_defect [OF assms(1) _ b] by blast
qed

theorem missing_schedule_fails_witness:
  "two_services = [two_services ! 0] @ (two_services ! 1) # [] \<and>
   example_schedule (service_name (two_services ! 1)) = None \<and>
   list_all (service_ok example_schedule) [two_services ! 0] \<and>
   isl (cvp_analysis_with_full_sliding_fee two_services example_schedule 200) \<and>
   cvp_analysis_with_full_sliding_fee two_services example_schedule 200 = Inl (KeyError ''B'')"
proof -
  have a: "two_services = [two_services ! 0] @ (two_services ! 1) # []"
    by (simp add: two_services_def)
  have b: "example_schedule (service_name (two_services ! 1)) = None"
    by (simp add: two_services_def example_schedule_def)
  have c: "list_all (service_ok example_schedule) [two_services ! 0]"
    by (simp add: two_services_def example_schedule_def service_ok_def tier_ok_def)
  from missing_schedule_fails [where services = two_services and pre = "[two_services ! 0]"
      and s = "two_services ! 1" and post = "[]" and sliding_fee_schedule = example_schedule
      and total_fixed_costs = 200, OF a b] c
  have "isl (cvp_analysis_with_full_sliding_fee two_services example_schedule 200)"
    and "cvp_analysis_with_full_sliding_fee two_services example_schedule 200
           = Inl (KeyError (service_name (two_services ! 1)))" by blast+
  moreover have "service_name (two_services ! 1) = ''B''" by (simp add: two_services_def)
  ultimately show ?thesis using a b c by simp
qed

text \<open>
  C5 without that proviso does not hold: the engine raises at the first defect it meets. Here the first
  service has a tier entry without a price, the second has no schedule entry, and the
  error names the key \<open>price\<close>, not the service \<open>B\<close>.
\<close>

theorem missing_schedule_counterexample:
  "service_name (defect_services ! 1) = ''B'' \<and>
   defect_schedule ''B'' = None \<and>
   cvp_analysis_with_full_sliding_fee defect_services defect_schedule 200 = Inl (KeyError ''price'') \<and>
   cvp_analysis_with_full_sliding_fee defect_services defect_schedule 200 \<noteq> Inl (KeyError ''B'')"
  by (simp add: eval_defs defect_services_def defect_schedule_def)

text \<open>
  The key of the failure: \<open>percentage\<close> (line 44) when the first incomplete tier
  entry the engine reaches lacks its percentage, otherwise \<open>price\<close> (line 45).
\<close>

lemma first_incomplete_tier_key:
  assumes "services = pre @ s # post"
    and "list_all (service_ok sliding_fee_schedule) pre"
    and "sliding_fee_schedule (service_name s) = Some (tpre @ (tier, vals) # tpost)"
    and "list_all (\<lambda>(tier, vals). tier_ok vals) tpre"
    and "percentage vals = None \<or> price vals = None"
  shows "cvp_analysis_with_full_sliding_fee services sliding_fee_schedule total_fixed_costs
           = Inl (KeyError (if percentage vals = None then ''percentage'' else ''price''))"
proof -
  from assms(5) have "\<not> tier_ok vals" by (auto simp: tier_ok_def)
  from tier_loop_first_defect [OF assms(4) this]
  have "service_body sliding_fee_schedule (total_fixed_costs / of_nat (length services)) s
             = Inl (KeyError (if percentage vals = None then ''percentage'' else ''price''))"
    by (simp add: service_body_def assms(3))
  from cvp_first_defect [OF assms(1,2) this] show ?thesis .
qed

text \<open>
  C6, for the tier entries the engine reads. When a tier entry in the tier set of a
  listed service lacks its percentage or its price and every service listed before that
  service has a schedule entry, the engine fails with the \<^verbatim>\<open>KeyError\<close> of
  \<open>percentage\<close> or of \<open>price\<close>. The schedule entries under names that no listed
  service carries have no effect on the result at all: two schedules that agree on the
  names of the listed services give the same result.
\<close>

theorem malformed_tier_fails:
  "(services = pre @ s # post \<and>
    (\<forall>x \<in> set pre. sliding_fee_schedule (service_name x) \<noteq> None) \<and>
    sliding_fee_schedule (service_name s) = Some tiers \<and>
    (tier, vals) \<in> set tiers \<and>
    (percentage vals = None \<or> price vals = None)
    \<longrightarrow>
      cvp_analysis_with_full_sliding_fee services sliding_fee_schedule total_fixed_costs
        = Inl (KeyError ''percentage'') \<or>
      cvp_analysis_with_full_sliding_fee services sliding_fee_schedule total_fixed_costs
        = Inl (KeyError ''price''))
   \<and>
   ((\<forall>x \<in> set services. other_schedule (service_name x) = sliding_fee_schedule (service_name x))
    \<longrightarrow>
      cvp_analysis_with_full_sliding_fee services other_schedule total_fixed_costs
        = cvp_analysis_with_full_sliding_fee services sliding_fee_schedule total_fixed_costs)"
proof (rule conjI; rule impI)
  assume "\<forall>x \<in> set services. other_schedule (service_name x) = sliding_fee_schedule (service_name x)"
  then show "cvp_analysis_with_full_sliding_fee services other_schedule total_fixed_costs
        = cvp_analysis_with_full_sliding_fee services sliding_fee_schedule total_fixed_costs"
    by (rule cvp_cong_schedule)
next
  assume h: "services = pre @ s # post \<and>
    (\<forall>x \<in> set pre. sliding_fee_schedule (service_name x) \<noteq> None) \<and>
    sliding_fee_schedule (service_name s) = Some tiers \<and>
    (tier, vals) \<in> set tiers \<and>
    (percentage vals = None \<or> price vals = None)"
  from h have sv: "services = pre @ s # post" by (rule conjunct1)
  from h have cov: "\<forall>x \<in> set pre. sliding_fee_schedule (service_name x) \<noteq> None"
    by (rule conjunct2 [THEN conjunct1])
  from h have t: "sliding_fee_schedule (service_name s) = Some tiers"
    by (rule conjunct2 [THEN conjunct2, THEN conjunct1])
  from h have m: "(tier, vals) \<in> set tiers"
    by (rule conjunct2 [THEN conjunct2, THEN conjunct2, THEN conjunct1])
  from h have d: "percentage vals = None \<or> price vals = None"
    by (rule conjunct2 [THEN conjunct2, THEN conjunct2, THEN conjunct2])
  from d have "\<not> tier_ok vals" by (auto simp: tier_ok_def)
  with m have "\<not> list_all (\<lambda>(tier, vals). tier_ok vals) tiers"
    by (force simp: list_all_iff)
  with t have ns: "\<not> service_ok sliding_fee_schedule s"
    by (simp add: service_ok_def)
  then have "\<exists>x \<in> set (pre @ [s]). \<not> service_ok sliding_fee_schedule x" by simp
  from split_list_first_prop [OF this] obtain ok u rest where
    sp: "pre @ [s] = ok @ u # rest" and nu: "\<not> service_ok sliding_fee_schedule u"
    and oks: "\<forall>y \<in> set ok. service_ok sliding_fee_schedule y" by blast
  have "u \<in> set (pre @ [s])" by (simp add: sp)
  then have "u \<in> set pre \<or> u = s" by auto
  then have "sliding_fee_schedule (service_name u) \<noteq> None"
  proof
    assume "u \<in> set pre"
    with cov show ?thesis by (rule bspec)
  next
    assume "u = s"
    with t show ?thesis by simp
  qed
  then obtain tu where tu: "sliding_fee_schedule (service_name u) = Some tu"
    by (cases "sliding_fee_schedule (service_name u)") simp_all
  have sv2: "services = ok @ u # (rest @ post)"
  proof -
    have "services = (pre @ [s]) @ post" by (simp add: sv)
    then show ?thesis by (simp add: sp)
  qed
  from oks have lo: "list_all (service_ok sliding_fee_schedule) ok" by (simp add: list_all_iff)
  from service_body_some_defect [OF tu nu, of "total_fixed_costs / of_nat (length services)"]
  have "service_body sliding_fee_schedule (total_fixed_costs / of_nat (length services)) u
          = Inl (KeyError ''percentage'') \<or>
        service_body sliding_fee_schedule (total_fixed_costs / of_nat (length services)) u
          = Inl (KeyError ''price'')" .
  then show "cvp_analysis_with_full_sliding_fee services sliding_fee_schedule total_fixed_costs
        = Inl (KeyError ''percentage'') \<or>
      cvp_analysis_with_full_sliding_fee services sliding_fee_schedule total_fixed_costs
        = Inl (KeyError ''price'')"
  proof
    assume "service_body sliding_fee_schedule (total_fixed_costs / of_nat (length services)) u
          = Inl (KeyError ''percentage'')"
    from cvp_first_defect [OF sv2 lo this] show ?thesis by (rule disjI1)
  next
    assume "service_body sliding_fee_schedule (total_fixed_costs / of_nat (length services)) u
          = Inl (KeyError ''price'')"
    from cvp_first_defect [OF sv2 lo this] show ?thesis by (rule disjI2)
  qed
qed

text \<open>
  Two services, the second with a tier entry without a price; and the example of the
  specification under a schedule with one more entry.
\<close>

theorem malformed_tier_fails_witness:
  "two_services = [two_services ! 0] @ (two_services ! 1) # [] \<and>
   malformed_second_schedule (service_name (two_services ! 0)) \<noteq> None \<and>
   malformed_second_schedule (service_name (two_services ! 1))
     = Some [(''T1'', \<lparr>price = Some 10, percentage = Some (1/2)\<rparr>),
             (''T2'', \<lparr>price = None, percentage = Some (1/2)\<rparr>)] \<and>
   cvp_analysis_with_full_sliding_fee two_services malformed_second_schedule 200
     = Inl (KeyError ''price'') \<and>
   unused_entry_schedule (service_name (example_services ! 0))
     = example_schedule (service_name (example_services ! 0)) \<and>
   unused_entry_schedule ''B'' \<noteq> example_schedule ''B'' \<and>
   cvp_analysis_with_full_sliding_fee example_services unused_entry_schedule 1000
     = cvp_analysis_with_full_sliding_fee example_services example_schedule 1000"
proof -
  have a: "two_services = [two_services ! 0] @ (two_services ! 1) # []"
    by (simp add: two_services_def)
  have b: "\<forall>x \<in> set [two_services ! 0]. malformed_second_schedule (service_name x) \<noteq> None"
    by (simp add: two_services_def malformed_second_schedule_def)
  have c: "malformed_second_schedule (service_name (two_services ! 1))
     = Some [(''T1'', \<lparr>price = Some 10, percentage = Some (1/2)\<rparr>),
             (''T2'', \<lparr>price = None, percentage = Some (1/2)\<rparr>)]"
    by (simp add: two_services_def malformed_second_schedule_def)
  have d: "(''T2'', \<lparr>price = None, percentage = Some (1/2)\<rparr>)
             \<in> set [(''T1'', \<lparr>price = Some (10::rat), percentage = Some (1/2 :: rat)\<rparr>),
                    (''T2'', \<lparr>price = None, percentage = Some (1/2)\<rparr>)]" by simp
  have e: "percentage \<lparr>price = None :: rat option, percentage = Some (1/2 :: rat)\<rparr> = None
           \<or> price \<lparr>price = None :: rat option, percentage = Some (1/2 :: rat)\<rparr> = None" by simp
  have f: "cvp_analysis_with_full_sliding_fee two_services malformed_second_schedule 200
             \<noteq> Inl (KeyError ''percentage'')"
    by (simp add: eval_defs two_services_def malformed_second_schedule_def)
  from malformed_tier_fails [where services = two_services and pre = "[two_services ! 0]"
      and s = "two_services ! 1" and post = "[]" and sliding_fee_schedule = malformed_second_schedule
      and total_fixed_costs = 200 and tier = "''T2''"
      and vals = "\<lparr>price = None, percentage = Some (1/2)\<rparr>"
      and tiers = "[(''T1'', \<lparr>price = Some 10, percentage = Some (1/2)\<rparr>),
                    (''T2'', \<lparr>price = None, percentage = Some (1/2)\<rparr>)]", THEN conjunct1]
    a b c d e f
  have g: "cvp_analysis_with_full_sliding_fee two_services malformed_second_schedule 200
     = Inl (KeyError ''price'')" by blast
  have h: "\<forall>x \<in> set example_services.
             unused_entry_schedule (service_name x) = example_schedule (service_name x)"
    by (simp add: example_services_def unused_entry_schedule_def example_schedule_def)
  from malformed_tier_fails [where services = example_services
      and other_schedule = unused_entry_schedule and sliding_fee_schedule = example_schedule
      and total_fixed_costs = 1000, THEN conjunct2] h
  have i: "cvp_analysis_with_full_sliding_fee example_services unused_entry_schedule 1000
     = cvp_analysis_with_full_sliding_fee example_services example_schedule 1000" by blast
  have j: "unused_entry_schedule (service_name (example_services ! 0))
     = example_schedule (service_name (example_services ! 0))"
    by (simp add: example_services_def unused_entry_schedule_def example_schedule_def)
  have k: "unused_entry_schedule ''B'' \<noteq> example_schedule ''B''"
    by (simp add: unused_entry_schedule_def example_schedule_def)
  have b': "malformed_second_schedule (service_name (two_services ! 0)) \<noteq> None"
    using b by simp
  from a b' c g j k i show ?thesis by (intro conjI)
qed

text \<open>
  C6 for any tier entry and any list of services does not hold. A tier entry is read
  only when a listed service names its tier set: the schedule entry of \<open>B\<close> has a
  tier entry without a price, no service is called \<open>B\<close>, and the engine returns the
  table of the specification's example. And a service without a schedule entry that is
  listed first fails first: with \<open>B\<close> unlisted in the schedule and listed before
  \<open>A\<close>, whose tier entry has no price, the error carries the name \<open>B\<close>.
\<close>

theorem malformed_tier_counterexample:
  "unused_entry_schedule ''B'' = Some [(''T1'', \<lparr>price = None, percentage = Some 1\<rparr>)] \<and>
   cvp_analysis_with_full_sliding_fee example_services unused_entry_schedule 1000 = Inr example_table \<and>
   defect_schedule (service_name (late_defect_services ! 1))
     = Some [(''T1'', \<lparr>price = None, percentage = Some 1\<rparr>)] \<and>
   cvp_analysis_with_full_sliding_fee late_defect_services defect_schedule 200
     = Inl (KeyError ''B'')"
  by (simp add: eval_defs example_services_def unused_entry_schedule_def example_table_def
        late_defect_services_def defect_schedule_def)

section \<open>Columns\<close>

text \<open>
  C7. For a valid input the columns of the table are \<open>Service\<close>, \<open>Volume\<close>, then the
  tier names of the last service's tier set without \<open>Full Charges\<close>, in the order of
  that tier set, then the five totals; every row has exactly these cells. The tier sets
  of the services before the last one play no part. (The tier names of a Python dict
  are distinct.)
\<close>

theorem columns_follow_last_service:
  assumes "valid_input services sliding_fee_schedule"
    and "sliding_fee_schedule (service_name (last services)) = Some tiers"
    and "distinct (map fst tiers)"
  shows "\<exists>df. cvp_analysis_with_full_sliding_fee services sliding_fee_schedule total_fixed_costs = Inr df \<and>
           columns df = [''Service'', ''Volume'']
                        @ filter (\<lambda>tier. tier \<noteq> ''Full Charges'') (map fst tiers)
                        @ [''Total Revenue'', ''Total Variable Costs'',
                           ''Fixed Costs'', ''Total Costs'', ''Profit''] \<and>
           (\<forall>r \<in> set (rows df). map fst r = columns df)"
proof -
  from cvp_rows [OF assms(1), of total_fixed_costs] obtain df where
    df: "cvp_analysis_with_full_sliding_fee services sliding_fee_schedule total_fixed_costs = Inr df"
    by blast
  from cvp_columns(1) [OF df] obtain r trs where
    b: "service_body sliding_fee_schedule (total_fixed_costs / of_nat (length services))
          (last services) = Inr (r, trs)"
    and c: "columns df = [''Service'', ''Volume''] @ map fst trs
                            @ [''Total Revenue'', ''Total Variable Costs'',
                               ''Fixed Costs'', ''Total Costs'', ''Profit'']" by blast
  have "map fst trs = filter (\<lambda>tier. tier \<noteq> ''Full Charges'') (map fst tiers)"
    by (simp add: service_body_tier_revenues [OF b assms(2,3)] comp_def case_prod_unfold filter_map)
  with c cvp_columns(2) [OF df] df show ?thesis by simp
qed

text \<open>
  The first service has the tiers \<open>T1\<close> and \<open>T2\<close>, the last one \<open>Full Charges\<close>,
  \<open>T2\<close> and \<open>T3\<close>: the tier columns are \<open>T2\<close> and \<open>T3\<close>.
\<close>

theorem columns_follow_last_service_witness:
  "valid_input two_services two_schedule \<and>
   two_schedule (service_name (last two_services))
     = Some [(''Full Charges'', \<lparr>price = Some 30, percentage = Some (1/4)\<rparr>),
             (''T2'', \<lparr>price = Some 20, percentage = Some (1/4)\<rparr>),
             (''T3'', \<lparr>price = Some 10, percentage = Some (1/2)\<rparr>)] \<and>
   two_schedule (service_name (two_services ! 0))
     = Some [(''T1'', \<lparr>price = Some 10, percentage = Some (1/2)\<rparr>),
             (''T2'', \<lparr>price = Some 20, percentage = Some (1/2)\<rparr>)] \<and>
   (\<exists>df. cvp_analysis_with_full_sliding_fee two_services two_schedule 200 = Inr df \<and>
         columns df = [''Service'', ''Volume'', ''T2'', ''T3'', ''Total Revenue'',
                       ''Total Variable Costs'', ''Fixed Costs'', ''Total Costs'', ''Profit''])"
proof -
  have t: "two_schedule (service_name (last two_services))
     = Some [(''Full Charges'', \<lparr>price = Some 30, percentage = Some (1/4)\<rparr>),
             (''T2'', \<lparr>price = Some 20, percentage = Some (1/4)\<rparr>),
             (''T3'', \<lparr>price = Some 10, percentage = Some (1/2)\<rparr>)]"
    by (simp add: two_services_def two_schedule_def)
  have d: "distinct (map fst [(''Full Charges'', \<lparr>price = Some (30::rat), percentage = Some (1/4 :: rat)\<rparr>),
             (''T2'', \<lparr>price = Some 20, percentage = Some (1/4)\<rparr>),
             (''T3'', \<lparr>price = Some 10, percentage = Some (1/2)\<rparr>)])" by simp
  have f: "two_schedule (service_name (two_services ! 0))
     = Some [(''T1'', \<lparr>price = Some 10, percentage = Some (1/2)\<rparr>),
             (''T2'', \<lparr>price = Some 20, percentage = Some (1/2)\<rparr>)]"
    by (simp add: two_services_def two_schedule_def)
  from columns_follow_last_service [OF two_valid t d, of 200] obtain df where
    "cvp_analysis_with_full_sliding_fee two_services two_schedule 200 = Inr df"
    "columns df = [''Service'', ''Volume'', ''T2'', ''T3'', ''Total Revenue'',
                       ''Total Variable Costs'', ''Fixed Costs'', ''Total Costs'', ''Profit'']"
    by auto
  then have "\<exists>df. cvp_analysis_with_full_sliding_fee two_services two_schedule 200 = Inr df \<and>
         columns df = [''Service'', ''Volume'', ''T2'', ''T3'', ''Total Revenue'',
                       ''Total Variable Costs'', ''Fixed Costs'', ''Total Costs'', ''Profit'']"
    by blast
  with two_valid t f show ?thesis by (simp only: simp_thms)
qed

section \<open>Percentages that do not sum to one\<close>



section \<open>Repeated service names\<close>



section \<open>What a call leaves behind\<close>

text \<open>
  Every write of the engine goes to an object the call itself has created: the inner
  loop writes to the new \<^verbatim>\<open>tier_revenues\<close>, the outer loop appends to the new
  \<^verbatim>\<open>service_data\<close>.
\<close>

lemma alloc_frame:
  "alloc obj h = (h', a) \<Longrightarrow> n \<le> length h \<Longrightarrow>
   take n h' = take n h \<and> length h' = Suc (length h) \<and> a = length h"
  by (auto simp: alloc_def)

lemma setitem_frame:
  "setitem h a k v = Inr h' \<Longrightarrow> n \<le> a \<Longrightarrow> take n h' = take n h \<and> length h' = length h"
  by (auto simp: setitem_def split: sum.splits pyobj.splits)

lemma list_append_frame:
  "list_append h a v = Inr h' \<Longrightarrow> n \<le> a \<Longrightarrow> take n h' = take n h \<and> length h' = length h"
  by (auto simp: list_append_def split: sum.splits pyobj.splits)

lemma tier_loop_store_frame:
  "tier_loop_store vol tiers tier_revenues total_revenue h = (h', r) \<Longrightarrow> n \<le> tier_revenues \<Longrightarrow>
   take n h' = take n h \<and> length h' = length h"
proof (induction tiers arbitrary: total_revenue h)
  case Nil
  then show ?case by simp
next
  case (Cons a tiers)
  obtain tier vals where a: "a = (tier, vals)" by (cases a)
  have rec: "take n h' = take n h1 \<and> length h' = length h1"
    if "tier_loop_store vol tiers tier_revenues t h1 = (h', r)" for t h1
    using Cons.IH [OF that Cons.prems(2)] .
  have w: "take n h1 = take n h \<and> length h1 = length h"
    if "setitem h tier_revenues tier x = Inr h1" for x h1
    using setitem_frame [OF that Cons.prems(2)] .
  from Cons.prems(1) show ?case
    by (auto simp: a split: sum.splits if_splits dest!: rec w)
qed

lemma service_body_store_frame:
  assumes "service_body_store sliding_fee_schedule fcps service_data service h = (h', r)"
    and "n \<le> length h" and "n \<le> service_data"
  shows "take n h' = take n h \<and> length h \<le> length h'"
proof -
  have t: "tier_loop_store vol tiers (length h) total (h @ [ODict []]) = (h2, looped) \<Longrightarrow>
           take n h2 = take n h \<and> length h2 = Suc (length h)" for vol tiers total h2 looped
    using tier_loop_store_frame [of vol tiers "length h" total "h @ [ODict []]" h2 looped n] assms(2)
    by simp
  have l: "list_append (h2 @ [obj]) service_data v = Inr h4 \<Longrightarrow>
           take n h4 = take n (h2 @ [obj]) \<and> length h4 = Suc (length h2)" for h2 obj v h4
    using list_append_frame [of "h2 @ [obj]" service_data v h4 n] assms(3) by simp
  from assms(1,2) show ?thesis
    unfolding service_body_store_def alloc_def
    by (auto split: sum.splits prod.splits dest!: t l)
qed

lemma service_loop_store_frame:
  "service_loop_store sliding_fee_schedule fcps service_data elems bound h = (h', r) \<Longrightarrow>
   n \<le> length h \<Longrightarrow> n \<le> service_data \<Longrightarrow>
   take n h' = take n h \<and> length h \<le> length h'"
proof (induction elems arbitrary: bound h)
  case Nil
  then show ?case by simp
next
  case (Cons service rest)
  obtain h1 outcome where b: "service_body_store sliding_fee_schedule fcps service_data service h = (h1, outcome)"
    by (cases "service_body_store sliding_fee_schedule fcps service_data service h")
  from service_body_store_frame [OF b Cons.prems(2,3)]
  have f: "take n h1 = take n h" and g: "length h \<le> length h1" by simp_all
  show ?case
  proof (cases outcome)
    case (Inl e)
    with Cons.prems(1) b f g show ?thesis by simp
  next
    case (Inr tier_revenues)
    with Cons.prems(1) b have
      "service_loop_store sliding_fee_schedule fcps service_data rest (Some tier_revenues) h1 = (h', r)"
      by simp
    from Cons.IH [OF this _ Cons.prems(3)] Cons.prems(2) f g show ?thesis by simp
  qed
qed

lemma cvp_analysis_store_frame:
  assumes "cvp_analysis_store services sliding_fee_schedule total_fixed_costs h = (h', outcome)"
  shows "length h \<le> length h' \<and> take (length h) h' = h \<and>
         (\<forall>result. outcome = Inr result \<longrightarrow>
            length h \<le> result \<and> result < length h' \<and> (\<exists>df. h' ! result = OFrame df))"
proof -
  have l: "service_loop_store sliding_fee_schedule fcps (length h) elems None (h @ [OList []]) = (h2, looped)
           \<Longrightarrow> take (length h) h2 = h \<and> Suc (length h) \<le> length h2" for fcps elems h2 looped
    using service_loop_store_frame [of sliding_fee_schedule fcps "length h" elems None
            "h @ [OList []]" h2 looped "length h"]
    by simp
  from assms show ?thesis
    unfolding cvp_analysis_store_def alloc_def
    by (auto split: sum.splits prod.splits option.splits dest!: l simp: nth_append)
qed

lemma example_store_eval:
  "cvp_analysis_store (VRef 5) (VRef 3) (VNum 1000) example_store = (example_store_after, Inr 10)"
  by (simp add: store_defs example_store_def example_store_after_def example_table_def)

text \<open>
  On the two services with different tier sets the engine over the store returns, at a
  new address, the table the engine over values computes, and leaves the eleven
  objects of the caller as they were.
\<close>

lemma two_store_eval:
  "snd (cvp_analysis_store (VRef 10) (VRef 7) (VNum 200) two_store) = Inr 17 \<and>
   fst (cvp_analysis_store (VRef 10) (VRef 7) (VNum 200) two_store) ! 17 = OFrame two_table \<and>
   take 11 (fst (cvp_analysis_store (VRef 10) (VRef 7) (VNum 200) two_store)) = two_store"
  by (simp add: store_defs two_store_def two_table_def)

text \<open>
  C9. Whatever a call does (return or raise), every object that was in the store before
  the call is the same after it: the list of services, every service dict, the schedule,
  every tier set and every tier entry hold the values they held. When the call returns,
  its result is at an address that did not exist before the call, and the object there
  is a frame, which holds cells and no reference to any object of the caller.
\<close>

theorem inputs_unchanged:
  assumes "cvp_analysis_store services sliding_fee_schedule total_fixed_costs h = (h', outcome)"
  shows "length h \<le> length h' \<and> take (length h) h' = h \<and>
         (\<forall>a < length h. h' ! a = h ! a) \<and>
         (\<forall>result. outcome = Inr result \<longrightarrow>
            length h \<le> result \<and> result < length h' \<and> (\<exists>df. h' ! result = OFrame df))"
proof -
  from cvp_analysis_store_frame [OF assms] have
    f: "take (length h) h' = h" and g: "length h \<le> length h'"
    and r: "\<forall>result. outcome = Inr result \<longrightarrow>
            length h \<le> result \<and> result < length h' \<and> (\<exists>df. h' ! result = OFrame df)"
    by blast+
  have "h' ! a = h ! a" if "a < length h" for a
  proof -
    from that have "take (length h) h' ! a = h' ! a" by simp
    with f show ?thesis by simp
  qed
  with f g r show ?thesis by blast
qed

text \<open>
  The example of the specification: the six objects of the caller are untouched and the
  result, at the new address 10, is the table the engine computes.
\<close>

theorem inputs_unchanged_witness:
  "cvp_analysis_store (VRef 5) (VRef 3) (VNum 1000) example_store = (example_store_after, Inr 10) \<and>
   length example_store = 6 \<and>
   take 6 example_store_after = example_store \<and>
   example_store_after ! 10 = OFrame example_table"
proof -
  from inputs_unchanged [OF example_store_eval]
  have "take (length example_store) example_store_after = example_store" by blast
  moreover have "length example_store = 6" by (simp add: example_store_def)
  moreover have "example_store_after ! 10 = OFrame example_table"
    by (simp add: example_store_after_def example_store_def)
  ultimately show ?thesis using example_store_eval by simp
qed

end

